theory Spec2Isabelle
  imports Main
begin

section \<open>Data model (src/db/tables.ts)\<close>

text \<open>
  A \<open>column.date\<close> value is a point in time; it is modelled as the integer number of
  milliseconds that a JavaScript \<open>Date\<close> carries. A \<open>column.text({ optional: true })\<close>
  value is a \<open>string option\<close>, \<open>None\<close> being the absent (NULL) value. Record fields are
  prefixed (\<open>c_\<close> for SnippetCollections, \<open>s_\<close> for Snippets) because both tables have
  columns of the same name.
\<close>

type_synonym date = int

record collection =
  c_id :: string
  c_userId :: string
  c_name :: string
  c_description :: "string option"
  c_icon :: "string option"
  c_isDefault :: bool
  c_createdAt :: date
  c_updatedAt :: date

record snippet =
  s_id :: string
  s_collectionId :: string
  s_userId :: string
  s_title :: string
  s_language :: "string option"
  s_content :: string
  s_description :: "string option"
  s_tags :: "string option"
  s_isFavorite :: bool
  s_isArchived :: bool
  s_createdAt :: date
  s_updatedAt :: date

text \<open>The store: each table is the list of its rows, in insertion order.\<close>

record store =
  SnippetCollections :: "collection list"
  Snippets :: "snippet list"

text \<open>
  Errors. \<open>UNAUTHORIZED\<close> and \<open>NOT_FOUND\<close> are the two \<open>ActionError\<close> codes the handlers
  throw. \<open>BAD_REQUEST\<close> is what \<open>defineAction\<close> answers when the input does not match the
  action's \<open>z.object\<close> schema, before the handler runs. \<open>CONSTRAINT\<close> is the store
  refusing an insert whose \<open>id\<close> is already present (\<open>primaryKey: true\<close>).
  \<open>INTERNAL_SERVER_ERROR\<close> is what the caller gets when the store throws on a select it
  refuses: a limit or an offset that is no 64-bit integer.
\<close>

datatype error = UNAUTHORIZED | NOT_FOUND | BAD_REQUEST | CONSTRAINT | INTERNAL_SERVER_ERROR

text \<open>
  The request context: \<open>context.locals\<close> may be undefined, and \<open>locals.user\<close> may be
  absent. Of the user only \<open>id\<close> is read.
\<close>

record user =
  u_id :: string

record locals =
  l_user :: "user option"

record ActionAPIContext =
  ctx_locals :: "locals option"

text \<open>
  What a handler takes from its environment: \<open>new Date()\<close> and \<open>crypto.randomUUID()\<close>.
\<close>

record env =
  env_now :: date
  env_uuid :: string

section \<open>Store operations (astro:db)\<close>

definition select_where :: "('r \<Rightarrow> bool) \<Rightarrow> 'r list \<Rightarrow> 'r list" where
  "select_where p rows = filter p rows"

definition update_where :: "('r \<Rightarrow> bool) \<Rightarrow> ('r \<Rightarrow> 'r) \<Rightarrow> 'r list \<Rightarrow> 'r list" where
  "update_where p f rows = map (\<lambda>r. if p r then f r else r) rows"

text \<open>\<open>const [row] = await db.select()...\<close>: the first row of the result, or undefined.\<close>

definition first_row :: "'r list \<Rightarrow> 'r option" where
  "first_row rows = (case rows of [] \<Rightarrow> None | r # _ \<Rightarrow> Some r)"

definition insert_collection :: "collection \<Rightarrow> store \<Rightarrow> error + store" where
  "insert_collection c db =
     (if c_id c \<in> set (map c_id (SnippetCollections db)) then Inl CONSTRAINT
      else Inr (db\<lparr>SnippetCollections := SnippetCollections db @ [c]\<rparr>))"

definition insert_snippet :: "snippet \<Rightarrow> store \<Rightarrow> error + store" where
  "insert_snippet s db =
     (if s_id s \<in> set (map s_id (Snippets db)) then Inl CONSTRAINT
      else Inr (db\<lparr>Snippets := Snippets db @ [s]\<rparr>))"

text \<open>
  JavaScript numbers are doubles. \<open>z.number().int()\<close> lets the integer-valued ones
  through, so \<open>page\<close> and \<open>pageSize\<close> are integers, and \<open>(input.page - 1) * input.pageSize\<close>
  is computed with each operation rounded to the nearest double, ties to the even
  mantissa. On integers that is \<open>round_double\<close>: an integer of at most 53 bits is kept,
  a longer one is rounded to 53 significant bits. An input number arrives as a double, so
  a \<open>page\<close> that reaches a handler is an integer that \<open>round_double\<close> keeps. (A result
  beyond the largest double is Infinity in JavaScript; here it stays a finite number above
  \<open>2 ^ 63\<close>, and the store refuses both.)
\<close>

function bit_length :: "int \<Rightarrow> nat" where
  "bit_length m = (if m \<le> 0 then 0 else Suc (bit_length (m div 2)))"
  by pat_completeness auto
termination
  by (relation "measure nat") auto

declare bit_length.simps [simp del]

definition round_double :: "int \<Rightarrow> int" where
  "round_double x =
     (let m = \<bar>x\<bar>; e = bit_length m - 53
      in if e = 0 then x
         else let q = m div 2 ^ e; r = m mod 2 ^ e; half = 2 ^ (e - 1);
                  q' = (if half < r \<or> (r = half \<and> odd q) then q + 1 else q)
              in sgn x * (q' * 2 ^ e))"

definition js_offset :: "int \<Rightarrow> int \<Rightarrow> int" where
  "js_offset page pageSize = round_double (round_double (page - 1) * pageSize)"

text \<open>
  \<open>.orderBy(desc(col)).limit(n).offset(k)\<close>: a stable sort on the negated column, then
  the page. The order among rows of equal key is the store's choice; it is fixed here to
  insertion order and no statement below depends on it. Dates are compared as integers,
  which is the order of the store's ISO text for the years 0000 to 9999.

  The store takes the limit and the offset as 64-bit integers and refuses the statement
  when one of them is \<open>2 ^ 63\<close> or more; the schemas bound \<open>pageSize\<close> by 100 but leave
  \<open>page\<close>, hence the offset, without an upper bound. A negative
  offset counts as zero and a negative limit as no limit; neither arises from an input
  that a schema has accepted.
\<close>

definition order_desc_page ::
  "('r \<Rightarrow> date) \<Rightarrow> int \<Rightarrow> int \<Rightarrow> 'r list \<Rightarrow> error + 'r list" where
  "order_desc_page col limit offset rows =
     (if 2 ^ 63 \<le> limit \<or> 2 ^ 63 \<le> offset then Inl INTERNAL_SERVER_ERROR
      else let skipped = drop (nat offset) (sort_key (\<lambda>r. - col r) rows)
           in Inr (if limit < 0 then skipped else take (nat limit) skipped))"

text \<open>
  \<open>.set(updateData)\<close> with a \<open>Partial\<close> row: only the keys that were assigned are
  written. \<open>None\<close> is a key that was never assigned.
\<close>

record collection_update =
  cu_name :: "string option"
  cu_description :: "string option"
  cu_icon :: "string option"
  cu_isDefault :: "bool option"
  cu_updatedAt :: "date option"

definition set_collection :: "collection_update \<Rightarrow> collection \<Rightarrow> collection" where
  "set_collection u c =
     c\<lparr>c_name := (case cu_name u of None \<Rightarrow> c_name c | Some v \<Rightarrow> v),
       c_description := (case cu_description u of None \<Rightarrow> c_description c | Some v \<Rightarrow> Some v),
       c_icon := (case cu_icon u of None \<Rightarrow> c_icon c | Some v \<Rightarrow> Some v),
       c_isDefault := (case cu_isDefault u of None \<Rightarrow> c_isDefault c | Some v \<Rightarrow> v),
       c_updatedAt := (case cu_updatedAt u of None \<Rightarrow> c_updatedAt c | Some v \<Rightarrow> v)\<rparr>"

record snippet_update =
  su_title :: "string option"
  su_language :: "string option"
  su_content :: "string option"
  su_description :: "string option"
  su_tags :: "string option"
  su_isFavorite :: "bool option"
  su_isArchived :: "bool option"
  su_collectionId :: "string option"
  su_updatedAt :: "date option"

definition set_snippet :: "snippet_update \<Rightarrow> snippet \<Rightarrow> snippet" where
  "set_snippet u s =
     s\<lparr>s_title := (case su_title u of None \<Rightarrow> s_title s | Some v \<Rightarrow> v),
       s_language := (case su_language u of None \<Rightarrow> s_language s | Some v \<Rightarrow> Some v),
       s_content := (case su_content u of None \<Rightarrow> s_content s | Some v \<Rightarrow> v),
       s_description := (case su_description u of None \<Rightarrow> s_description s | Some v \<Rightarrow> Some v),
       s_tags := (case su_tags u of None \<Rightarrow> s_tags s | Some v \<Rightarrow> Some v),
       s_isFavorite := (case su_isFavorite u of None \<Rightarrow> s_isFavorite s | Some v \<Rightarrow> v),
       s_isArchived := (case su_isArchived u of None \<Rightarrow> s_isArchived s | Some v \<Rightarrow> v),
       s_collectionId := (case su_collectionId u of None \<Rightarrow> s_collectionId s | Some v \<Rightarrow> v),
       s_updatedAt := (case su_updatedAt u of None \<Rightarrow> s_updatedAt s | Some v \<Rightarrow> v)\<rparr>"

section \<open>Authorization guard\<close>

definition requireUser :: "ActionAPIContext \<Rightarrow> error + user" where
  "requireUser context =
     (case ctx_locals context of
        None \<Rightarrow> Inl UNAUTHORIZED
      | Some l \<Rightarrow> (case l_user l of None \<Rightarrow> Inl UNAUTHORIZED | Some u \<Rightarrow> Inr u))"

definition ensureCollectionOwned :: "string \<Rightarrow> string \<Rightarrow> store \<Rightarrow> error + collection" where
  "ensureCollectionOwned collectionId userId db =
     (case first_row (select_where (\<lambda>c. c_id c = collectionId \<and> c_userId c = userId)
                        (SnippetCollections db)) of
        None \<Rightarrow> Inl NOT_FOUND
      | Some c \<Rightarrow> Inr c)"

definition ensureSnippetOwned :: "string \<Rightarrow> string \<Rightarrow> store \<Rightarrow> error + snippet" where
  "ensureSnippetOwned snippetId userId db =
     (case first_row (select_where (\<lambda>s. s_id s = snippetId \<and> s_userId s = userId)
                        (Snippets db)) of
        None \<Rightarrow> Inl NOT_FOUND
      | Some s \<Rightarrow> Inr s)"

section \<open>Collection actions\<close>

text \<open>
  Every action is \<open>defineAction({ input: schema, handler })\<close>: the schema is checked
  first, then the handler runs on the parsed input. A handler returns its answer and the
  store as it left it; a handler that throws after a write leaves the write in place (no
  transaction wraps the statements).
\<close>

record createSnippetCollection_input =
  csc_name :: string
  csc_description :: "string option"
  csc_icon :: "string option"
  csc_isDefault :: "bool option"

definition createSnippetCollection_schema :: "createSnippetCollection_input \<Rightarrow> bool" where
  "createSnippetCollection_schema input = (1 \<le> length (csc_name input))"

definition clear_defaults :: "string \<Rightarrow> date \<Rightarrow> store \<Rightarrow> store" where
  "clear_defaults userId now db =
     db\<lparr>SnippetCollections :=
          update_where (\<lambda>c. c_userId c = userId)
            (\<lambda>c. c\<lparr>c_isDefault := False, c_updatedAt := now\<rparr>) (SnippetCollections db)\<rparr>"

definition createSnippetCollection_handler ::
  "createSnippetCollection_input \<Rightarrow> ActionAPIContext \<Rightarrow> env \<Rightarrow> store \<Rightarrow> (error + collection) \<times> store" where
  "createSnippetCollection_handler input context env db =
     (case requireUser context of
        Inl e \<Rightarrow> (Inl e, db)
      | Inr user \<Rightarrow>
          let now = env_now env;
              db1 = (if csc_isDefault input = Some True then clear_defaults (u_id user) now db
                     else db);
              collection =
                \<lparr>c_id = env_uuid env,
                 c_userId = u_id user,
                 c_name = csc_name input,
                 c_description = csc_description input,
                 c_icon = csc_icon input,
                 c_isDefault = (case csc_isDefault input of None \<Rightarrow> False | Some b \<Rightarrow> b),
                 c_createdAt = now,
                 c_updatedAt = now\<rparr>
          in (case insert_collection collection db1 of
                Inl e \<Rightarrow> (Inl e, db1)
              | Inr db2 \<Rightarrow> (Inr collection, db2)))"

definition createSnippetCollection ::
  "createSnippetCollection_input \<Rightarrow> ActionAPIContext \<Rightarrow> env \<Rightarrow> store \<Rightarrow> (error + collection) \<times> store" where
  "createSnippetCollection input context env db =
     (if createSnippetCollection_schema input
      then createSnippetCollection_handler input context env db
      else (Inl BAD_REQUEST, db))"

record updateSnippetCollection_input =
  usc_id :: string
  usc_name :: "string option"
  usc_description :: "string option"
  usc_icon :: "string option"
  usc_isDefault :: "bool option"

definition updateSnippetCollection_schema :: "updateSnippetCollection_input \<Rightarrow> bool" where
  "updateSnippetCollection_schema input =
     (1 \<le> length (usc_id input) \<and>
      (case usc_name input of None \<Rightarrow> True | Some n \<Rightarrow> 1 \<le> length n))"

definition updateSnippetCollection_handler ::
  "updateSnippetCollection_input \<Rightarrow> ActionAPIContext \<Rightarrow> env \<Rightarrow> store
     \<Rightarrow> (error + collection option) \<times> store" where
  "updateSnippetCollection_handler input context env db =
     (case requireUser context of
        Inl e \<Rightarrow> (Inl e, db)
      | Inr user \<Rightarrow>
         (case ensureCollectionOwned (usc_id input) (u_id user) db of
            Inl e \<Rightarrow> (Inl e, db)
          | Inr existing \<Rightarrow>
              let now = env_now env;
                  updateData =
                    \<lparr>cu_name = usc_name input,
                     cu_description = usc_description input,
                     cu_icon = usc_icon input,
                     cu_isDefault = usc_isDefault input,
                     cu_updatedAt = Some now\<rparr>;
                  db1 = (if usc_isDefault input = Some True
                         then clear_defaults (u_id user) now db else db);
                  db2 = db1\<lparr>SnippetCollections :=
                              update_where (\<lambda>c. c_id c = c_id existing)
                                (set_collection updateData) (SnippetCollections db1)\<rparr>;
                  collection = first_row (select_where (\<lambda>c. c_id c = c_id existing)
                                            (SnippetCollections db2))
              in (Inr collection, db2)))"

definition updateSnippetCollection ::
  "updateSnippetCollection_input \<Rightarrow> ActionAPIContext \<Rightarrow> env \<Rightarrow> store
     \<Rightarrow> (error + collection option) \<times> store" where
  "updateSnippetCollection input context env db =
     (if updateSnippetCollection_schema input
      then updateSnippetCollection_handler input context env db
      else (Inl BAD_REQUEST, db))"

text \<open>
  A page of a list action: \<open>{ items, total: items.length }\<close>.
\<close>

record 'r page =
  items :: "'r list"
  total :: nat

text \<open>
  The list schemas have defaults, so the raw input (fields optional) and the parsed input
  (defaults filled in) differ; the schema returns the parsed input, or \<open>None\<close> when it
  rejects. \<open>z.number().int()\<close> leaves the integers, hence \<open>int\<close>.
\<close>

record listMySnippetCollections_raw =
  lcr_page :: "int option"
  lcr_pageSize :: "int option"

record listMySnippetCollections_input =
  lc_page :: int
  lc_pageSize :: int

definition parse_page :: "int option \<Rightarrow> int option" where
  "parse_page p = (case p of None \<Rightarrow> Some 1 | Some n \<Rightarrow> if 0 < n then Some n else None)"

definition parse_pageSize :: "int option \<Rightarrow> int option" where
  "parse_pageSize p =
     (case p of None \<Rightarrow> Some 20 | Some n \<Rightarrow> if 0 < n \<and> n \<le> 100 then Some n else None)"

definition listMySnippetCollections_schema ::
  "listMySnippetCollections_raw \<Rightarrow> listMySnippetCollections_input option" where
  "listMySnippetCollections_schema raw =
     (case parse_page (lcr_page raw) of
        None \<Rightarrow> None
      | Some p \<Rightarrow>
         (case parse_pageSize (lcr_pageSize raw) of
            None \<Rightarrow> None
          | Some ps \<Rightarrow> Some \<lparr>lc_page = p, lc_pageSize = ps\<rparr>))"

definition listMySnippetCollections_handler ::
  "listMySnippetCollections_input \<Rightarrow> ActionAPIContext \<Rightarrow> store \<Rightarrow> (error + collection page) \<times> store" where
  "listMySnippetCollections_handler input context db =
     (case requireUser context of
        Inl e \<Rightarrow> (Inl e, db)
      | Inr user \<Rightarrow>
          let offset = js_offset (lc_page input) (lc_pageSize input)
          in (case order_desc_page c_createdAt (lc_pageSize input) offset
                     (select_where (\<lambda>c. c_userId c = u_id user) (SnippetCollections db)) of
                Inl e \<Rightarrow> (Inl e, db)
              | Inr found \<Rightarrow> (Inr \<lparr>items = found, total = length found\<rparr>, db)))"

definition listMySnippetCollections ::
  "listMySnippetCollections_raw \<Rightarrow> ActionAPIContext \<Rightarrow> store \<Rightarrow> (error + collection page) \<times> store" where
  "listMySnippetCollections raw context db =
     (case listMySnippetCollections_schema raw of
        None \<Rightarrow> (Inl BAD_REQUEST, db)
      | Some input \<Rightarrow> listMySnippetCollections_handler input context db)"

section \<open>Snippet actions\<close>

record createSnippet_input =
  cs_collectionId :: string
  cs_title :: string
  cs_language :: "string option"
  cs_content :: string
  cs_description :: "string option"
  cs_tags :: "string option"
  cs_isFavorite :: "bool option"

definition createSnippet_schema :: "createSnippet_input \<Rightarrow> bool" where
  "createSnippet_schema input =
     (1 \<le> length (cs_collectionId input) \<and> 1 \<le> length (cs_title input) \<and>
      1 \<le> length (cs_content input))"

definition createSnippet_handler ::
  "createSnippet_input \<Rightarrow> ActionAPIContext \<Rightarrow> env \<Rightarrow> store \<Rightarrow> (error + snippet) \<times> store" where
  "createSnippet_handler input context env db =
     (case requireUser context of
        Inl e \<Rightarrow> (Inl e, db)
      | Inr user \<Rightarrow>
         (case ensureCollectionOwned (cs_collectionId input) (u_id user) db of
            Inl e \<Rightarrow> (Inl e, db)
          | Inr _ \<Rightarrow>
              let now = env_now env;
                  snippet =
                    \<lparr>s_id = env_uuid env,
                     s_collectionId = cs_collectionId input,
                     s_userId = u_id user,
                     s_title = cs_title input,
                     s_language = cs_language input,
                     s_content = cs_content input,
                     s_description = cs_description input,
                     s_tags = cs_tags input,
                     s_isFavorite = (case cs_isFavorite input of None \<Rightarrow> False | Some b \<Rightarrow> b),
                     s_isArchived = False,
                     s_createdAt = now,
                     s_updatedAt = now\<rparr>
              in (case insert_snippet snippet db of
                    Inl e \<Rightarrow> (Inl e, db)
                  | Inr db1 \<Rightarrow> (Inr snippet, db1))))"

definition createSnippet ::
  "createSnippet_input \<Rightarrow> ActionAPIContext \<Rightarrow> env \<Rightarrow> store \<Rightarrow> (error + snippet) \<times> store" where
  "createSnippet input context env db =
     (if createSnippet_schema input
      then createSnippet_handler input context env db
      else (Inl BAD_REQUEST, db))"

record updateSnippet_input =
  us_id :: string
  us_title :: "string option"
  us_language :: "string option"
  us_content :: "string option"
  us_description :: "string option"
  us_tags :: "string option"
  us_isFavorite :: "bool option"
  us_isArchived :: "bool option"
  us_collectionId :: "string option"

definition updateSnippet_schema :: "updateSnippet_input \<Rightarrow> bool" where
  "updateSnippet_schema input =
     (1 \<le> length (us_id input) \<and>
      (case us_title input of None \<Rightarrow> True | Some t \<Rightarrow> 1 \<le> length t) \<and>
      (case us_content input of None \<Rightarrow> True | Some c \<Rightarrow> 1 \<le> length c))"

text \<open>
  The handler fills \<open>updateData\<close> key by key, each key only when the input field is not
  undefined; \<open>collectionId\<close> is assigned last, after the ownership check of the new
  collection, which throws before any write.
\<close>

definition updateSnippet_handler ::
  "updateSnippet_input \<Rightarrow> ActionAPIContext \<Rightarrow> env \<Rightarrow> store
     \<Rightarrow> (error + snippet option) \<times> store" where
  "updateSnippet_handler input context env db =
     (case requireUser context of
        Inl e \<Rightarrow> (Inl e, db)
      | Inr user \<Rightarrow>
         (case ensureSnippetOwned (us_id input) (u_id user) db of
            Inl e \<Rightarrow> (Inl e, db)
          | Inr existing \<Rightarrow>
              let now = env_now env;
                  updateData =
                    \<lparr>su_title = us_title input,
                     su_language = us_language input,
                     su_content = us_content input,
                     su_description = us_description input,
                     su_tags = us_tags input,
                     su_isFavorite = us_isFavorite input,
                     su_isArchived = us_isArchived input,
                     su_collectionId = None,
                     su_updatedAt = Some now\<rparr>;
                  checked =
                    (case us_collectionId input of
                       None \<Rightarrow> Inr updateData
                     | Some cid \<Rightarrow>
                         if cid \<noteq> s_collectionId existing
                         then (case ensureCollectionOwned cid (u_id user) db of
                                 Inl e \<Rightarrow> Inl e
                               | Inr _ \<Rightarrow> Inr (updateData\<lparr>su_collectionId := Some cid\<rparr>))
                         else Inr updateData)
              in (case checked of
                    Inl e \<Rightarrow> (Inl e, db)
                  | Inr updateData' \<Rightarrow>
                      let db1 = db\<lparr>Snippets :=
                                     update_where (\<lambda>s. s_id s = s_id existing)
                                       (set_snippet updateData') (Snippets db)\<rparr>;
                          snippet = first_row (select_where (\<lambda>s. s_id s = s_id existing)
                                                 (Snippets db1))
                      in (Inr snippet, db1))))"

definition updateSnippet ::
  "updateSnippet_input \<Rightarrow> ActionAPIContext \<Rightarrow> env \<Rightarrow> store
     \<Rightarrow> (error + snippet option) \<times> store" where
  "updateSnippet input context env db =
     (if updateSnippet_schema input
      then updateSnippet_handler input context env db
      else (Inl BAD_REQUEST, db))"

record archiveSnippet_input =
  as_id :: string

definition archiveSnippet_schema :: "archiveSnippet_input \<Rightarrow> bool" where
  "archiveSnippet_schema input = (1 \<le> length (as_id input))"

definition archiveSnippet_handler ::
  "archiveSnippet_input \<Rightarrow> ActionAPIContext \<Rightarrow> env \<Rightarrow> store \<Rightarrow> (error + string) \<times> store" where
  "archiveSnippet_handler input context env db =
     (case requireUser context of
        Inl e \<Rightarrow> (Inl e, db)
      | Inr user \<Rightarrow>
         (case ensureSnippetOwned (as_id input) (u_id user) db of
            Inl e \<Rightarrow> (Inl e, db)
          | Inr existing \<Rightarrow>
              let now = env_now env;
                  db1 = db\<lparr>Snippets :=
                             update_where (\<lambda>s. s_id s = s_id existing)
                               (\<lambda>s. s\<lparr>s_isArchived := True, s_updatedAt := now\<rparr>)
                               (Snippets db)\<rparr>
              in (Inr (s_id existing), db1)))"

definition archiveSnippet ::
  "archiveSnippet_input \<Rightarrow> ActionAPIContext \<Rightarrow> env \<Rightarrow> store \<Rightarrow> (error + string) \<times> store" where
  "archiveSnippet input context env db =
     (if archiveSnippet_schema input
      then archiveSnippet_handler input context env db
      else (Inl BAD_REQUEST, db))"

record listSnippets_raw =
  lsr_collectionId :: "string option"
  lsr_includeArchived :: "bool option"
  lsr_page :: "int option"
  lsr_pageSize :: "int option"

record listSnippets_input =
  ls_collectionId :: "string option"
  ls_includeArchived :: bool
  ls_page :: int
  ls_pageSize :: int

definition listSnippets_schema :: "listSnippets_raw \<Rightarrow> listSnippets_input option" where
  "listSnippets_schema raw =
     (case parse_page (lsr_page raw) of
        None \<Rightarrow> None
      | Some p \<Rightarrow>
         (case parse_pageSize (lsr_pageSize raw) of
            None \<Rightarrow> None
          | Some ps \<Rightarrow>
              Some \<lparr>ls_collectionId = lsr_collectionId raw,
                    ls_includeArchived =
                      (case lsr_includeArchived raw of None \<Rightarrow> False | Some b \<Rightarrow> b),
                    ls_page = p,
                    ls_pageSize = ps\<rparr>))"

text \<open>
  \<open>filters\<close> is the list of conditions joined by \<open>and(...filters)\<close>.
  \<open>if (input.collectionId)\<close> is JavaScript truthiness: the branch is taken for a string
  that is present and not empty; undefined and the empty string both skip it.
\<close>

definition and_filters :: "('r \<Rightarrow> bool) list \<Rightarrow> 'r \<Rightarrow> bool" where
  "and_filters filters r = list_all (\<lambda>f. f r) filters"

definition listSnippets_handler ::
  "listSnippets_input \<Rightarrow> ActionAPIContext \<Rightarrow> store \<Rightarrow> (error + snippet page) \<times> store" where
  "listSnippets_handler input context db =
     (case requireUser context of
        Inl e \<Rightarrow> (Inl e, db)
      | Inr user \<Rightarrow>
          let filters0 = [\<lambda>s. s_userId s = u_id user];
              checked =
                (case ls_collectionId input of
                   None \<Rightarrow> Inr filters0
                 | Some cid \<Rightarrow>
                     if cid \<noteq> []
                     then (case ensureCollectionOwned cid (u_id user) db of
                             Inl e \<Rightarrow> Inl e
                           | Inr _ \<Rightarrow> Inr (filters0 @ [\<lambda>s. s_collectionId s = cid]))
                     else Inr filters0)
          in (case checked of
                Inl e \<Rightarrow> (Inl e, db)
              | Inr filters1 \<Rightarrow>
                  let filters = (if \<not> ls_includeArchived input
                                 then filters1 @ [\<lambda>s. s_isArchived s = False] else filters1);
                      offset = js_offset (ls_page input) (ls_pageSize input)
                  in (case order_desc_page s_updatedAt (ls_pageSize input) offset
                             (select_where (and_filters filters) (Snippets db)) of
                        Inl e \<Rightarrow> (Inl e, db)
                      | Inr found \<Rightarrow> (Inr \<lparr>items = found, total = length found\<rparr>, db))))"

definition listSnippets ::
  "listSnippets_raw \<Rightarrow> ActionAPIContext \<Rightarrow> store \<Rightarrow> (error + snippet page) \<times> store" where
  "listSnippets raw context db =
     (case listSnippets_schema raw of
        None \<Rightarrow> (Inl BAD_REQUEST, db)
      | Some input \<Rightarrow> listSnippets_handler input context db)"

record getSnippet_input =
  gs_id :: string

definition getSnippet_schema :: "getSnippet_input \<Rightarrow> bool" where
  "getSnippet_schema input = (1 \<le> length (gs_id input))"

definition getSnippet_handler ::
  "getSnippet_input \<Rightarrow> ActionAPIContext \<Rightarrow> store \<Rightarrow> (error + snippet) \<times> store" where
  "getSnippet_handler input context db =
     (case requireUser context of
        Inl e \<Rightarrow> (Inl e, db)
      | Inr user \<Rightarrow>
         (case ensureSnippetOwned (gs_id input) (u_id user) db of
            Inl e \<Rightarrow> (Inl e, db)
          | Inr snippet \<Rightarrow> (Inr snippet, db)))"

definition getSnippet ::
  "getSnippet_input \<Rightarrow> ActionAPIContext \<Rightarrow> store \<Rightarrow> (error + snippet) \<times> store" where
  "getSnippet input context db =
     (if getSnippet_schema input
      then getSnippet_handler input context db
      else (Inl BAD_REQUEST, db))"

section \<open>The interface: the eight actions of \<open>server\<close>\<close>

datatype action =
    CreateSnippetCollection createSnippetCollection_input
  | UpdateSnippetCollection updateSnippetCollection_input
  | ListMySnippetCollections listMySnippetCollections_raw
  | CreateSnippet createSnippet_input
  | UpdateSnippet updateSnippet_input
  | ArchiveSnippet archiveSnippet_input
  | ListSnippets listSnippets_raw
  | GetSnippet getSnippet_input

text \<open>The store after one call of an action (whatever the call answered).\<close>

fun server :: "action \<Rightarrow> ActionAPIContext \<Rightarrow> env \<Rightarrow> store \<Rightarrow> store" where
  "server (CreateSnippetCollection i) context env db = snd (createSnippetCollection i context env db)"
| "server (UpdateSnippetCollection i) context env db = snd (updateSnippetCollection i context env db)"
| "server (ListMySnippetCollections i) context env db = snd (listMySnippetCollections i context db)"
| "server (CreateSnippet i) context env db = snd (createSnippet i context env db)"
| "server (UpdateSnippet i) context env db = snd (updateSnippet i context env db)"
| "server (ArchiveSnippet i) context env db = snd (archiveSnippet i context env db)"
| "server (ListSnippets i) context env db = snd (listSnippets i context db)"
| "server (GetSnippet i) context env db = snd (getSnippet i context db)"

text \<open>
  The stores the interface can produce: the empty store, and what any call of any action,
  by any caller, at any time and with any generated id, makes of such a store.
\<close>

inductive reachable :: "store \<Rightarrow> bool" where
  reachable_empty: "reachable \<lparr>SnippetCollections = [], Snippets = []\<rparr>"
| reachable_call: "reachable db \<Longrightarrow> reachable (server a context env db)"

text \<open>The primary key of SnippetCollections, and the single-default invariant of a user.\<close>

definition collection_ids_unique :: "store \<Rightarrow> bool" where
  "collection_ids_unique db = distinct (map c_id (SnippetCollections db))"

definition defaults_of :: "string \<Rightarrow> store \<Rightarrow> collection list" where
  "defaults_of userId db =
     filter (\<lambda>c. c_userId c = userId \<and> c_isDefault c) (SnippetCollections db)"

definition at_most_one_default :: "string \<Rightarrow> store \<Rightarrow> bool" where
  "at_most_one_default userId db = (length (defaults_of userId db) \<le> 1)"

text \<open>
  Which calls can write the \<open>isArchived\<close> column of an existing row: \<open>archiveSnippet\<close>
  sets it to true, \<open>updateSnippet\<close> copies \<open>input.isArchived\<close> into \<open>updateData\<close> when it is
  present. An update whose input carries \<open>isArchived = false\<close> is the one that can take a
  row from archived back to active.
\<close>

fun writes_isArchived :: "action \<Rightarrow> bool" where
  "writes_isArchived (ArchiveSnippet i) = True"
| "writes_isArchived (UpdateSnippet i) = (us_isArchived i \<noteq> None)"
| "writes_isArchived a = False"

fun unarchiving_update :: "action \<Rightarrow> bool" where
  "unarchiving_update (UpdateSnippet i) = (us_isArchived i = Some False)"
| "unarchiving_update a = False"

text \<open>
  The snippet id that a call names in its where clause, the user id of the caller (none
  when \<open>requireUser\<close> throws), whether that caller owns a snippet of a given id, and the
  primary key of Snippets.
\<close>

fun target_id :: "action \<Rightarrow> string option" where
  "target_id (UpdateSnippet i) = Some (us_id i)"
| "target_id (ArchiveSnippet i) = Some (as_id i)"
| "target_id a = None"

definition caller :: "ActionAPIContext \<Rightarrow> string option" where
  "caller context = (case requireUser context of Inl e \<Rightarrow> None | Inr user \<Rightarrow> Some (u_id user))"

definition owns_snippet :: "string option \<Rightarrow> string \<Rightarrow> store \<Rightarrow> bool" where
  "owns_snippet who snippetId db =
     (case who of
        None \<Rightarrow> False
      | Some userId \<Rightarrow> list_ex (\<lambda>s. s_id s = snippetId \<and> s_userId s = userId) (Snippets db))"

definition snippet_ids_unique :: "store \<Rightarrow> bool" where
  "snippet_ids_unique db = distinct (map s_id (Snippets db))"

text \<open>An optional text column holds no text when it is absent or the empty string.\<close>

definition empty_text :: "string option \<Rightarrow> bool" where
  "empty_text v = (case v of None \<Rightarrow> True | Some str \<Rightarrow> str = [])"

text \<open>Every row of the Snippets table with this id exists and is archived.\<close>

definition archived_in :: "string \<Rightarrow> store \<Rightarrow> bool" where
  "archived_in snippetId db =
     (list_ex (\<lambda>s. s_id s = snippetId) (Snippets db) \<and>
      list_all (\<lambda>s. s_id s = snippetId \<longrightarrow> s_isArchived s) (Snippets db))"

section \<open>A concrete store and concrete calls\<close>

definition alice :: ActionAPIContext where
  "alice = \<lparr>ctx_locals = Some \<lparr>l_user = Some \<lparr>u_id = ''alice''\<rparr>\<rparr>\<rparr>"

definition sql :: collection where
  "sql = \<lparr>c_id = ''c1'', c_userId = ''alice'', c_name = ''SQL'',
          c_description = Some ''queries'', c_icon = Some ''laptop'', c_isDefault = True,
          c_createdAt = 10, c_updatedAt = 10\<rparr>"

definition go :: collection where
  "go = \<lparr>c_id = ''c2'', c_userId = ''alice'', c_name = ''Go'',
         c_description = None, c_icon = None, c_isDefault = False,
         c_createdAt = 20, c_updatedAt = 20\<rparr>"

definition rust :: collection where
  "rust = \<lparr>c_id = ''c3'', c_userId = ''bob'', c_name = ''Rust'',
           c_description = None, c_icon = None, c_isDefault = True,
           c_createdAt = 30, c_updatedAt = 30\<rparr>"

definition sel :: snippet where
  "sel = \<lparr>s_id = ''s1'', s_collectionId = ''c1'', s_userId = ''alice'', s_title = ''select'',
          s_language = Some ''sql'', s_content = ''SELECT 1'', s_description = None,
          s_tags = None, s_isFavorite = False, s_isArchived = False,
          s_createdAt = 40, s_updatedAt = 40\<rparr>"

definition old :: snippet where
  "old = \<lparr>s_id = ''s2'', s_collectionId = ''c1'', s_userId = ''alice'', s_title = ''old'',
          s_language = None, s_content = ''DROP'', s_description = None,
          s_tags = None, s_isFavorite = False, s_isArchived = True,
          s_createdAt = 50, s_updatedAt = 50\<rparr>"

definition store0 :: store where
  "store0 = \<lparr>SnippetCollections = [sql, go, rust], Snippets = [sel, old]\<rparr>"

definition theirs :: snippet where
  "theirs = \<lparr>s_id = ''s9'', s_collectionId = ''c3'', s_userId = ''bob'', s_title = ''own'',
             s_language = None, s_content = ''fn'', s_description = None,
             s_tags = None, s_isFavorite = False, s_isArchived = True,
             s_createdAt = 60, s_updatedAt = 60\<rparr>"

definition store1 :: store where
  "store1 = \<lparr>SnippetCollections = [sql, go, rust], Snippets = [sel, old, theirs]\<rparr>"

definition unarchive_theirs :: updateSnippet_input where
  "unarchive_theirs = \<lparr>us_id = ''s9'', us_title = None, us_language = None,
                       us_content = None, us_description = None, us_tags = None,
                       us_isFavorite = None, us_isArchived = Some False,
                       us_collectionId = None\<rparr>"

definition archive_by_update :: updateSnippet_input where
  "archive_by_update = \<lparr>us_id = ''s1'', us_title = None, us_language = None,
                        us_content = None, us_description = None, us_tags = None,
                        us_isFavorite = None, us_isArchived = Some True,
                        us_collectionId = None\<rparr>"

definition at100 :: env where
  "at100 = \<lparr>env_now = 100, env_uuid = ''n1''\<rparr>"

definition at200 :: env where
  "at200 = \<lparr>env_now = 200, env_uuid = ''n2''\<rparr>"

definition new_default :: createSnippetCollection_input where
  "new_default = \<lparr>csc_name = ''Astro'', csc_description = None, csc_icon = None,
                  csc_isDefault = Some True\<rparr>"

definition make_go_default :: updateSnippetCollection_input where
  "make_go_default = \<lparr>usc_id = ''c2'', usc_name = None, usc_description = None,
                      usc_icon = None, usc_isDefault = Some True\<rparr>"

definition blank_description :: updateSnippetCollection_input where
  "blank_description = \<lparr>usc_id = ''c1'', usc_name = None, usc_description = Some [],
                        usc_icon = None, usc_isDefault = None\<rparr>"

definition into_rust :: createSnippet_input where
  "into_rust = \<lparr>cs_collectionId = ''c3'', cs_title = ''t'', cs_language = None,
                cs_content = ''x'', cs_description = None, cs_tags = None,
                cs_isFavorite = None\<rparr>"

definition move_to_rust :: updateSnippet_input where
  "move_to_rust = \<lparr>us_id = ''s1'', us_title = Some ''renamed'', us_language = None,
                   us_content = None, us_description = None, us_tags = None,
                   us_isFavorite = Some True, us_isArchived = None,
                   us_collectionId = Some ''c3''\<rparr>"

definition unarchive_old :: updateSnippet_input where
  "unarchive_old = \<lparr>us_id = ''s2'', us_title = None, us_language = None,
                    us_content = None, us_description = None, us_tags = None,
                    us_isFavorite = None, us_isArchived = Some False,
                    us_collectionId = None\<rparr>"

definition rename_old :: updateSnippet_input where
  "rename_old = \<lparr>us_id = ''s2'', us_title = Some ''older'', us_language = None,
                 us_content = None, us_description = None, us_tags = None,
                 us_isFavorite = None, us_isArchived = None,
                 us_collectionId = None\<rparr>"

definition archive_sel :: archiveSnippet_input where
  "archive_sel = \<lparr>as_id = ''s1''\<rparr>"

definition first_of_one :: listMySnippetCollections_raw where
  "first_of_one = \<lparr>lcr_page = Some 1, lcr_pageSize = Some 1\<rparr>"

definition list_default :: listSnippets_raw where
  "list_default = \<lparr>lsr_collectionId = None, lsr_includeArchived = None,
                   lsr_page = None, lsr_pageSize = None\<rparr>"

definition list_far :: listSnippets_raw where
  "list_far = \<lparr>lsr_collectionId = None, lsr_includeArchived = None,
               lsr_page = Some 1000000000000000000, lsr_pageSize = None\<rparr>"

definition list_one :: listSnippets_raw where
  "list_one = \<lparr>lsr_collectionId = None, lsr_includeArchived = Some True,
               lsr_page = Some 1, lsr_pageSize = Some 1\<rparr>"

section \<open>Evaluating the concrete calls\<close>

lemmas ex_defs = alice_def sql_def go_def rust_def sel_def old_def store0_def theirs_def store1_def
  unarchive_theirs_def archive_by_update_def at100_def at200_def
  new_default_def make_go_default_def blank_description_def into_rust_def move_to_rust_def
  unarchive_old_def rename_old_def archive_sel_def first_of_one_def list_default_def list_far_def list_one_def

lemma bit_length_le: "m < 2 ^ k \<Longrightarrow> bit_length m \<le> k"
proof (induction k arbitrary: m)
  case 0
  then show ?case by (simp add: bit_length.simps)
next
  case (Suc k)
  show ?case
  proof (cases "m \<le> 0")
    case True
    then show ?thesis by (simp add: bit_length.simps)
  next
    case False
    from Suc.prems have "m div 2 < 2 ^ k" by simp
    from Suc.IH [OF this] False show ?thesis by (subst bit_length.simps) simp
  qed
qed

lemma round_double_exact: "\<bar>x\<bar> < 2 ^ 53 \<Longrightarrow> round_double x = x"
  using bit_length_le [of "\<bar>x\<bar>" 53] by (simp add: round_double_def)

text \<open>Rounding at and above 53 bits: ties go to the even mantissa, as in JavaScript.\<close>

lemma round_double_examples:
  "round_double 9007199254740992 = 9007199254740992"
  "round_double 9007199254740993 = 9007199254740992"
  "round_double 9007199254740995 = 9007199254740996"
  "round_double 9223372036854775807 = 9223372036854775808"
  "round_double 999999999999999999 = 1000000000000000000"
  by code_simp+

lemma js_offset_exact:
  assumes "0 < page" and "0 < pageSize" and "(page - 1) * pageSize < 2 ^ 53"
  shows "js_offset page pageSize = (page - 1) * pageSize"
proof -
  have "page - 1 \<le> (page - 1) * pageSize"
    using assms(1,2) by (simp add: mult_le_cancel_left1)
  with assms have "\<bar>page - 1\<bar> < 2 ^ 53" "\<bar>(page - 1) * pageSize\<bar> < 2 ^ 53"
    by simp_all
  then show ?thesis by (simp add: js_offset_def round_double_exact)
qed

lemmas run_defs = requireUser_def ensureCollectionOwned_def ensureSnippetOwned_def
  first_row_def select_where_def update_where_def insert_collection_def insert_snippet_def
  clear_defaults_def set_collection_def set_snippet_def order_desc_page_def and_filters_def
  parse_page_def parse_pageSize_def js_offset_exact Let_def


lemma create_ex: "createSnippetCollection new_default alice at100 store0 =
  (Inr \<lparr>c_id = ''n1'', c_userId = ''alice'', c_name = ''Astro'', c_description = None,
         c_icon = None, c_isDefault = True, c_createdAt = 100, c_updatedAt = 100\<rparr>,
   \<lparr>SnippetCollections =
      [sql\<lparr>c_isDefault := False, c_updatedAt := 100\<rparr>, go\<lparr>c_updatedAt := 100\<rparr>, rust,
       \<lparr>c_id = ''n1'', c_userId = ''alice'', c_name = ''Astro'', c_description = None,
         c_icon = None, c_isDefault = True, c_createdAt = 100, c_updatedAt = 100\<rparr>],
    Snippets = [sel, old]\<rparr>)"
  by (simp add: createSnippetCollection_def createSnippetCollection_schema_def
        createSnippetCollection_handler_def run_defs ex_defs)

lemma update_ex: "updateSnippetCollection make_go_default alice at100 store0 =
  (Inr (Some (go\<lparr>c_isDefault := True, c_updatedAt := 100\<rparr>)),
   \<lparr>SnippetCollections =
      [sql\<lparr>c_isDefault := False, c_updatedAt := 100\<rparr>, go\<lparr>c_isDefault := True, c_updatedAt := 100\<rparr>, rust],
    Snippets = [sel, old]\<rparr>)"
  by (simp add: updateSnippetCollection_def updateSnippetCollection_schema_def
        updateSnippetCollection_handler_def run_defs ex_defs)

section \<open>The single default collection of a user\<close>

lemma length_filter_map_le:
  "(\<And>r. r \<in> set rows \<Longrightarrow> P (g r) \<Longrightarrow> P r) \<Longrightarrow> length (filter P (map g rows)) \<le> length (filter P rows)"
  by (induction rows) auto

lemma length_filter_update_le:
  "(\<And>r. r \<in> set rows \<Longrightarrow> \<not> q r \<Longrightarrow> \<not> P r) \<Longrightarrow>
   length (filter P (map (\<lambda>r. if q r then f r else r) rows)) \<le> length (filter q rows)"
  by (induction rows) auto

lemma distinct_filter_key_le1:
  "distinct (map k rows) \<Longrightarrow> length (filter (\<lambda>r. k r = i) rows) \<le> 1"
  by (induction rows) (auto simp: filter_empty_conv image_iff)

lemma filter_default_clear:
  "filter (\<lambda>c. c_userId c = u \<and> c_isDefault c)
     (map (\<lambda>r. if c_userId r = v then r\<lparr>c_isDefault := False, c_updatedAt := now\<rparr> else r) rows) =
   (if u = v then [] else filter (\<lambda>c. c_userId c = u \<and> c_isDefault c) rows)"
  by (induction rows) auto

lemma defaults_of_clear:
  "defaults_of u (clear_defaults v now db) = (if u = v then [] else defaults_of u db)"
  unfolding defaults_of_def clear_defaults_def update_where_def
  using filter_default_clear [of u v now "SnippetCollections db"] by simp

lemma ids_clear: "map c_id (SnippetCollections (clear_defaults v now db)) = map c_id (SnippetCollections db)"
  by (simp add: clear_defaults_def update_where_def comp_def)


lemma set_collection_keys [simp]:
  "c_id (set_collection u c) = c_id c" "c_userId (set_collection u c) = c_userId c"
  by (simp_all add: set_collection_def)

lemma ensureCollectionOwned_Inr:
  "ensureCollectionOwned i u db = Inr e \<Longrightarrow>
     e \<in> set (SnippetCollections db) \<and> c_id e = i \<and> c_userId e = u"
proof -
  assume a: "ensureCollectionOwned i u db = Inr e"
  let ?xs = "filter (\<lambda>c. c_id c = i \<and> c_userId c = u) (SnippetCollections db)"
  from a obtain ys where "?xs = e # ys"
    by (auto simp: ensureCollectionOwned_def first_row_def select_where_def split: list.splits)
  then have "e \<in> set ?xs" by simp
  then show ?thesis by simp
qed

lemma same_id_same_row:
  "distinct (map c_id rows) \<Longrightarrow> e \<in> set rows \<Longrightarrow> r \<in> set rows \<Longrightarrow> c_id r = c_id e \<Longrightarrow> r = e"
  by (meson distinct_map inj_onD)

lemma update_without_clear:
  assumes "cu_isDefault upd \<noteq> Some True"
  shows "length (filter (\<lambda>c. c_userId c = u \<and> c_isDefault c)
           (update_where (\<lambda>c. c_id c = i) (set_collection upd) rows))
         \<le> length (filter (\<lambda>c. c_userId c = u \<and> c_isDefault c) rows)"
  unfolding update_where_def
proof (rule length_filter_map_le)
  fix r
  assume "c_userId (if c_id r = i then set_collection upd r else r) = u \<and>
          c_isDefault (if c_id r = i then set_collection upd r else r)"
  with assms show "c_userId r = u \<and> c_isDefault r"
    by (cases "c_id r = i") (auto simp: set_collection_def split: option.splits)
qed

lemma update_after_clear:
  assumes d: "distinct (map c_id rows)" and e: "e \<in> set rows" and v: "c_userId e = v"
    and inv: "u \<noteq> v \<Longrightarrow> length (filter (\<lambda>c. c_userId c = u \<and> c_isDefault c) rows) \<le> 1"
  shows "length (filter (\<lambda>c. c_userId c = u \<and> c_isDefault c)
           (update_where (\<lambda>c. c_id c = c_id e) (set_collection upd)
              (update_where (\<lambda>c. c_userId c = v)
                 (\<lambda>c. c\<lparr>c_isDefault := False, c_updatedAt := now\<rparr>) rows))) \<le> 1"
proof -
  define cl where "cl = (\<lambda>r::collection. if c_userId r = v then r\<lparr>c_isDefault := False, c_updatedAt := now\<rparr> else r)"
  define rows1 where "rows1 = map cl rows"
  define P where "P = (\<lambda>c::collection. c_userId c = u \<and> c_isDefault c)"
  define g where "g = (\<lambda>r::collection. if c_id r = c_id e then set_collection upd r else r)"
  have cl_keys: "c_id (cl r) = c_id r" "c_userId (cl r) = c_userId r" for r
    by (simp_all add: cl_def)
  have ids1: "map c_id rows1 = map c_id rows" by (simp add: rows1_def comp_def cl_keys)
  have d1: "distinct (map c_id rows1)" unfolding ids1 by (rule d)
  have q1: "length (filter (\<lambda>r. c_id r = c_id e) rows1) \<le> 1"
    by (rule distinct_filter_key_le1 [OF d1])
  have owner: "c_userId r = v" if "r \<in> set rows1" "c_id r = c_id e" for r
  proof -
    from that(1) obtain r0 where r0: "r0 \<in> set rows" "r = cl r0" by (auto simp: rows1_def)
    then have "c_id r0 = c_id e" using that(2) by (simp add: cl_keys)
    then have "r0 = e" using same_id_same_row [OF d e r0(1)] by simp
    then show ?thesis using r0 v by (simp add: cl_keys)
  qed
  have cleared: "filter P rows1 = (if u = v then [] else filter P rows)"
    unfolding P_def rows1_def cl_def by (rule filter_default_clear)
  have "length (filter P (map g rows1)) \<le> 1"
  proof (cases "u = v")
    case True
    have none: "\<forall>x\<in>set rows1. \<not> P x"
      using cleared True by (simp add: filter_empty_conv)
    have "length (filter P (map (\<lambda>r. if c_id r = c_id e then set_collection upd r else r) rows1))
          \<le> length (filter (\<lambda>r. c_id r = c_id e) rows1)"
      by (rule length_filter_update_le) (use none in blast)
    from this q1 show ?thesis unfolding g_def by (rule order_trans)
  next
    case False
    have "length (filter P (map g rows1)) \<le> length (filter P rows1)"
    proof (rule length_filter_map_le)
      fix r assume r: "r \<in> set rows1" and p: "P (g r)"
      show "P r"
      proof (cases "c_id r = c_id e")
        case True
        then have "c_userId r = v" using owner r by blast
        with p True False show ?thesis by (simp add: P_def g_def)
      next
        case False with p show ?thesis by (simp add: g_def)
      qed
    qed
    moreover have "length (filter P rows1) \<le> 1"
      using cleared False inv by (simp add: P_def)
    ultimately show ?thesis by (rule order_trans)
  qed
  then show ?thesis by (simp only: P_def g_def rows1_def cl_def update_where_def)
qed

lemma update_collection_rows:
  "SnippetCollections (snd (updateSnippetCollection i ctx env db)) = SnippetCollections db \<or>
   (\<exists>user e. requireUser ctx = Inr user \<and>
      ensureCollectionOwned (usc_id i) (u_id user) db = Inr e \<and>
      SnippetCollections (snd (updateSnippetCollection i ctx env db)) =
        update_where (\<lambda>c. c_id c = c_id e)
          (set_collection \<lparr>cu_name = usc_name i, cu_description = usc_description i,
                           cu_icon = usc_icon i, cu_isDefault = usc_isDefault i,
                           cu_updatedAt = Some (env_now env)\<rparr>)
          (if usc_isDefault i = Some True
           then update_where (\<lambda>c. c_userId c = u_id user)
                  (\<lambda>c. c\<lparr>c_isDefault := False, c_updatedAt := env_now env\<rparr>)
                  (SnippetCollections db)
           else SnippetCollections db))"
  by (simp add: updateSnippetCollection_def updateSnippetCollection_handler_def Let_def
        clear_defaults_def split: sum.splits)

lemma update_collection_default_inv:
  assumes "collection_ids_unique db" and "at_most_one_default u db"
  shows "at_most_one_default u (snd (updateSnippetCollection i ctx env db))"
  using update_collection_rows [of i ctx env db]
proof (elim disjE exE conjE)
  assume "SnippetCollections (snd (updateSnippetCollection i ctx env db)) = SnippetCollections db"
  with assms(2) show ?thesis by (simp add: at_most_one_default_def defaults_of_def)
next
  fix user :: user and e
  assume own: "ensureCollectionOwned (usc_id i) (u_id user) db = Inr e"
    and rows: "SnippetCollections (snd (updateSnippetCollection i ctx env db)) =
        update_where (\<lambda>c. c_id c = c_id e)
          (set_collection \<lparr>cu_name = usc_name i, cu_description = usc_description i,
                           cu_icon = usc_icon i, cu_isDefault = usc_isDefault i,
                           cu_updatedAt = Some (env_now env)\<rparr>)
          (if usc_isDefault i = Some True
           then update_where (\<lambda>c. c_userId c = u_id user)
                  (\<lambda>c. c\<lparr>c_isDefault := False, c_updatedAt := env_now env\<rparr>)
                  (SnippetCollections db)
           else SnippetCollections db)"
  from own have e: "e \<in> set (SnippetCollections db)" "c_userId e = u_id user"
    using ensureCollectionOwned_Inr by blast+
  have d: "distinct (map c_id (SnippetCollections db))"
    using assms(1) by (simp add: collection_ids_unique_def)
  have inv: "length (filter (\<lambda>c. c_userId c = u \<and> c_isDefault c) (SnippetCollections db)) \<le> 1"
    using assms(2) by (simp add: at_most_one_default_def defaults_of_def)
  show ?thesis
  proof (cases "usc_isDefault i = Some True")
    case True
    show ?thesis
      unfolding at_most_one_default_def defaults_of_def rows if_P [OF True]
      by (rule update_after_clear [OF d e(1) e(2)]) (rule inv)
  next
    case False
    have "length (filter (\<lambda>c. c_userId c = u \<and> c_isDefault c)
            (SnippetCollections (snd (updateSnippetCollection i ctx env db))))
          \<le> length (filter (\<lambda>c. c_userId c = u \<and> c_isDefault c) (SnippetCollections db))"
      unfolding rows if_not_P [OF False]
      by (rule update_without_clear) (use False in simp)
    from this inv show ?thesis
      unfolding at_most_one_default_def defaults_of_def by (rule order_trans)
  qed
qed


lemma update_collection_ids:
  "map c_id (SnippetCollections (snd (updateSnippetCollection i ctx env db))) =
   map c_id (SnippetCollections db)"
  by (simp add: updateSnippetCollection_def updateSnippetCollection_handler_def Let_def
        clear_defaults_def update_where_def comp_def if_distrib [of c_id] split: sum.splits)

lemma id_set_clear:
  "c_id ` set (SnippetCollections (clear_defaults v now db)) = c_id ` set (SnippetCollections db)"
  using arg_cong [OF ids_clear [of v now db], of set] by simp

lemma create_collection_ids_unique:
  assumes "collection_ids_unique db"
  shows "collection_ids_unique (snd (createSnippetCollection i ctx env db))"
  using assms unfolding collection_ids_unique_def
  by (simp add: createSnippetCollection_def createSnippetCollection_handler_def Let_def
        insert_collection_def ids_clear id_set_clear split: sum.splits)

lemma defaults_of_append:
  "defaults_of u (db\<lparr>SnippetCollections := SnippetCollections db @ [c]\<rparr>) =
   defaults_of u db @ (if c_userId c = u \<and> c_isDefault c then [c] else [])"
  by (simp add: defaults_of_def)

lemma create_collection_default_inv:
  assumes "at_most_one_default u db"
  shows "at_most_one_default u (snd (createSnippetCollection i ctx env db))"
  using assms unfolding at_most_one_default_def
  by (simp add: createSnippetCollection_def createSnippetCollection_handler_def Let_def
        insert_collection_def defaults_of_append defaults_of_clear
        split: sum.splits option.splits)

lemma server_collections:
  "(\<exists>i. a = CreateSnippetCollection i) \<or> (\<exists>i. a = UpdateSnippetCollection i) \<or>
   SnippetCollections (server a ctx env db) = SnippetCollections db"
  by (cases a)
     (auto simp: listMySnippetCollections_def listMySnippetCollections_handler_def
        createSnippet_def createSnippet_handler_def insert_snippet_def
        updateSnippet_def updateSnippet_handler_def archiveSnippet_def archiveSnippet_handler_def
        listSnippets_def listSnippets_handler_def getSnippet_def getSnippet_handler_def Let_def
        split: sum.splits option.splits if_splits)

lemma server_preserves:
  assumes "collection_ids_unique db \<and> (\<forall>u. at_most_one_default u db)"
  shows "collection_ids_unique (server a ctx env db) \<and>
         (\<forall>u. at_most_one_default u (server a ctx env db))"
  using server_collections [of a ctx env db]
proof (elim disjE exE)
  fix i assume "a = CreateSnippetCollection i"
  with assms show ?thesis
    by (simp add: create_collection_ids_unique create_collection_default_inv)
next
  fix i assume "a = UpdateSnippetCollection i"
  with assms show ?thesis
    by (simp add: collection_ids_unique_def update_collection_ids update_collection_default_inv)
next
  assume "SnippetCollections (server a ctx env db) = SnippetCollections db"
  with assms show ?thesis
    by (simp add: collection_ids_unique_def at_most_one_default_def defaults_of_def)
qed

lemma reachable_single_default:
  "reachable db \<Longrightarrow> collection_ids_unique db \<and> (\<forall>u. at_most_one_default u db)"
proof (induction rule: reachable.induct)
  case reachable_empty
  show ?case by (simp add: collection_ids_unique_def at_most_one_default_def defaults_of_def)
next
  case (reachable_call db a ctx env)
  then show ?case by (intro server_preserves)
qed


lemma singleton_of_member:
  "length xs \<le> 1 \<Longrightarrow> x \<in> set xs \<Longrightarrow> xs = [x]"
  by (cases xs) auto

lemma first_row_member:
  "first_row (select_where p rows) = Some r \<Longrightarrow> r \<in> set rows \<and> p r"
proof -
  assume "first_row (select_where p rows) = Some r"
  then obtain ys where "filter p rows = r # ys"
    by (auto simp: first_row_def select_where_def split: list.splits)
  then have "r \<in> set (filter p rows)" by simp
  then show ?thesis by simp
qed

lemma first_row_exists:
  "r \<in> set rows \<Longrightarrow> p r \<Longrightarrow> \<exists>r'. first_row (select_where p rows) = Some r'"
proof -
  assume "r \<in> set rows" "p r"
  then have "filter p rows \<noteq> []" by (auto simp: filter_empty_conv)
  then show ?thesis by (cases "filter p rows") (auto simp: first_row_def select_where_def)
qed

lemma update_default_target:
  fixes now :: date
  assumes d: "distinct (map c_id rows)" and e: "e \<in> set rows" and v: "c_userId e = v"
    and upd: "cu_isDefault upd = Some True"
  defines "rows2 \<equiv> update_where (\<lambda>c. c_id c = c_id e) (set_collection upd)
              (update_where (\<lambda>c. c_userId c = v)
                 (\<lambda>c. c\<lparr>c_isDefault := False, c_updatedAt := now\<rparr>) rows)"
  shows "\<exists>c. first_row (select_where (\<lambda>c. c_id c = c_id e) rows2) = Some c \<and>
             filter (\<lambda>c. c_userId c = v \<and> c_isDefault c) rows2 = [c]"
proof -
  define cl where "cl = (\<lambda>r::collection. if c_userId r = v then r\<lparr>c_isDefault := False, c_updatedAt := now\<rparr> else r)"
  define g where "g = (\<lambda>r::collection. if c_id r = c_id e then set_collection upd r else r)"
  have rows2: "rows2 = map g (map cl rows)"
    by (simp only: rows2_def update_where_def g_def cl_def)
  have keys: "c_id (g (cl r)) = c_id r" "c_userId (g (cl r)) = c_userId r" for r
    by (simp_all add: g_def cl_def)
  have "g (cl e) \<in> set rows2" using e by (simp add: rows2)
  moreover have "c_id (g (cl e)) = c_id e" by (rule keys)
  ultimately obtain c where c: "first_row (select_where (\<lambda>c. c_id c = c_id e) rows2) = Some c"
    using first_row_exists [of "g (cl e)" rows2 "\<lambda>c. c_id c = c_id e"] by blast
  then have cin: "c \<in> set rows2" and cid: "c_id c = c_id e"
    using first_row_member [of "\<lambda>c. c_id c = c_id e" rows2 c] by simp_all
  from cin obtain r0 where r0: "r0 \<in> set rows" "c = g (cl r0)" by (auto simp: rows2)
  then have "c_id r0 = c_id e" using cid keys by simp
  then have "r0 = e" using same_id_same_row [OF d e r0(1)] by simp
  then have ce: "c = g (cl e)" using r0 by simp
  have "c_userId c = v" using ce keys v by simp
  moreover have "c_isDefault c" using ce upd by (simp add: g_def cl_def set_collection_def)
  ultimately have mem: "c \<in> set (filter (\<lambda>c. c_userId c = v \<and> c_isDefault c) rows2)"
    using cin by simp
  have "length (filter (\<lambda>c. c_userId c = v \<and> c_isDefault c) rows2) \<le> 1"
    unfolding rows2_def by (rule update_after_clear [OF d e v]) simp
  then have "filter (\<lambda>c. c_userId c = v \<and> c_isDefault c) rows2 = [c]"
    using mem by (rule singleton_of_member)
  with c show ?thesis by blast
qed

text \<open>
  Claim C1. After a single \<open>createSnippetCollection\<close> or \<open>updateSnippetCollection\<close> call
  (whatever it answers), a user who had at most one default collection before it still has
  at most one, the ids of the table being unique as its primary key makes them. When the
  input has \<open>isDefault = true\<close> and the call succeeds, the handler has first cleared
  \<open>isDefault\<close> on all of the caller's collections and then written the target row with
  \<open>isDefault = true\<close>: the target row is the caller's only default collection.
\<close>

theorem single_default_per_user:
  "(collection_ids_unique db \<and> at_most_one_default userId db \<longrightarrow>
      at_most_one_default userId (snd (createSnippetCollection ci ctx env db)) \<and>
      at_most_one_default userId (snd (updateSnippetCollection ui ctx env db))) \<and>
   (csc_isDefault ci = Some True \<and>
    createSnippetCollection ci ctx env db = (Inr c, db1) \<longrightarrow>
      SnippetCollections db1 =
        SnippetCollections (clear_defaults (c_userId c) (env_now env) db) @ [c] \<and>
      c_isDefault c \<and> defaults_of (c_userId c) db1 = [c]) \<and>
   (collection_ids_unique db \<and> usc_isDefault ui = Some True \<and>
    requireUser ctx = Inr user \<and>
    updateSnippetCollection ui ctx env db = (Inr r, db2) \<longrightarrow>
      (\<exists>c'. r = Some c' \<and> c_id c' = usc_id ui \<and> c_isDefault c' \<and>
            defaults_of (u_id user) db2 = [c']))"
proof (intro conjI)
  show "collection_ids_unique db \<and> at_most_one_default userId db \<longrightarrow>
           at_most_one_default userId (snd (createSnippetCollection ci ctx env db)) \<and>
           at_most_one_default userId (snd (updateSnippetCollection ui ctx env db))"
    by (simp add: create_collection_default_inv update_collection_default_inv)
next
  show "csc_isDefault ci = Some True \<and>
         createSnippetCollection ci ctx env db = (Inr c, db1) \<longrightarrow>
           SnippetCollections db1 =
             SnippetCollections (clear_defaults (c_userId c) (env_now env) db) @ [c] \<and>
           c_isDefault c \<and> defaults_of (c_userId c) db1 = [c]"
    by (auto simp: createSnippetCollection_def createSnippetCollection_handler_def Let_def
          insert_collection_def defaults_of_append defaults_of_clear
          split: sum.splits if_splits)
next
  show "collection_ids_unique db \<and> usc_isDefault ui = Some True \<and>
         requireUser ctx = Inr user \<and>
         updateSnippetCollection ui ctx env db = (Inr r, db2) \<longrightarrow>
           (\<exists>c'. r = Some c' \<and> c_id c' = usc_id ui \<and> c_isDefault c' \<and>
                defaults_of (u_id user) db2 = [c'])"
  proof (intro impI, elim conjE)
    assume d: "collection_ids_unique db" and t: "usc_isDefault ui = Some True"
      and u: "requireUser ctx = Inr user"
      and run: "updateSnippetCollection ui ctx env db = (Inr r, db2)"
    from run u obtain e where own: "ensureCollectionOwned (usc_id ui) (u_id user) db = Inr e"
      by (auto simp: updateSnippetCollection_def updateSnippetCollection_handler_def
            split: if_splits sum.splits)
    then have e: "e \<in> set (SnippetCollections db)" "c_id e = usc_id ui" "c_userId e = u_id user"
      using ensureCollectionOwned_Inr by blast+
    define upd where "upd = \<lparr>cu_name = usc_name ui, cu_description = usc_description ui,
                           cu_icon = usc_icon ui, cu_isDefault = usc_isDefault ui,
                           cu_updatedAt = Some (env_now env)\<rparr>"
    define rows2 where "rows2 = update_where (\<lambda>c. c_id c = c_id e) (set_collection upd)
              (update_where (\<lambda>c. c_userId c = u_id user)
                 (\<lambda>c. c\<lparr>c_isDefault := False, c_updatedAt := env_now env\<rparr>) (SnippetCollections db))"
    from run u own t have r: "r = first_row (select_where (\<lambda>c. c_id c = c_id e) rows2)"
      and db': "SnippetCollections db2 = rows2"
      by (auto simp: updateSnippetCollection_def updateSnippetCollection_handler_def Let_def
            clear_defaults_def rows2_def upd_def split: if_splits)
    have "cu_isDefault upd = Some True" using t by (simp add: upd_def)
    from update_default_target [OF _ e(1) e(3) this, of "env_now env"] d
    obtain c where c: "first_row (select_where (\<lambda>c. c_id c = c_id e) rows2) = Some c"
      "filter (\<lambda>c. c_userId c = u_id user \<and> c_isDefault c) rows2 = [c]"
      unfolding rows2_def collection_ids_unique_def by blast
    from c(2) have "c \<in> set (filter (\<lambda>c. c_userId c = u_id user \<and> c_isDefault c) rows2)" by simp
    then have "c_isDefault c" by simp
    moreover have "c_id c = usc_id ui"
      using first_row_member [OF c(1)] e(2) by simp
    ultimately show "\<exists>c'. r = Some c' \<and> c_id c' = usc_id ui \<and> c_isDefault c' \<and>
                defaults_of (u_id user) db2 = [c']"
      using c r db' by (simp add: defaults_of_def)
  qed
qed


lemma store0_unique: "collection_ids_unique store0"
  by (simp add: collection_ids_unique_def ex_defs)

lemma store0_alice_default: "defaults_of ''alice'' store0 = [sql]"
  by (simp add: defaults_of_def ex_defs)

theorem single_default_per_user_witness:
  "collection_ids_unique store0 \<and> at_most_one_default ''alice'' store0 \<and>
   at_most_one_default ''alice'' (snd (createSnippetCollection new_default alice at100 store0)) \<and>
   at_most_one_default ''alice'' (snd (updateSnippetCollection make_go_default alice at100 store0)) \<and>
   csc_isDefault new_default = Some True \<and> usc_isDefault make_go_default = Some True \<and>
   requireUser alice = Inr \<lparr>u_id = ''alice''\<rparr> \<and>
   defaults_of ''alice'' (snd (createSnippetCollection new_default alice at100 store0)) =
     [\<lparr>c_id = ''n1'', c_userId = ''alice'', c_name = ''Astro'', c_description = None,
       c_icon = None, c_isDefault = True, c_createdAt = 100, c_updatedAt = 100\<rparr>] \<and>
   defaults_of ''alice'' (snd (updateSnippetCollection make_go_default alice at100 store0)) =
     [go\<lparr>c_isDefault := True, c_updatedAt := 100\<rparr>]"
proof -
  have h1: "collection_ids_unique store0 \<and> at_most_one_default ''alice'' store0"
    by (simp add: store0_unique at_most_one_default_def store0_alice_default)
  have h2: "csc_isDefault new_default = Some True" "usc_isDefault make_go_default = Some True"
    "requireUser alice = Inr \<lparr>u_id = ''alice''\<rparr>"
    by (simp_all add: ex_defs requireUser_def)
  from single_default_per_user [where db = store0 and userId = "''alice''" and ci = new_default
      and ctx = alice and env = at100 and ui = make_go_default
      and user = "\<lparr>u_id = ''alice''\<rparr>"
      and c = "\<lparr>c_id = ''n1'', c_userId = ''alice'', c_name = ''Astro'', c_description = None,
       c_icon = None, c_isDefault = True, c_createdAt = 100, c_updatedAt = 100\<rparr>"
      and ?db1.0 = "snd (createSnippetCollection new_default alice at100 store0)"
      and r = "Some (go\<lparr>c_isDefault := True, c_updatedAt := 100\<rparr>)"
      and ?db2.0 = "snd (updateSnippetCollection make_go_default alice at100 store0)"]
    h1 h2
  show ?thesis
    by (simp add: create_ex update_ex)
qed


section \<open>Collections the caller does not own\<close>

lemma ensureCollectionOwned_none:
  "\<not> list_ex (\<lambda>c. c_id c = i \<and> c_userId c = u) (SnippetCollections db) \<Longrightarrow>
   ensureCollectionOwned i u db = Inl NOT_FOUND"
proof -
  assume "\<not> list_ex (\<lambda>c. c_id c = i \<and> c_userId c = u) (SnippetCollections db)"
  then have "filter (\<lambda>c. c_id c = i \<and> c_userId c = u) (SnippetCollections db) = []"
    by (simp add: filter_empty_conv list_ex_iff)
  then show ?thesis
    by (simp add: ensureCollectionOwned_def select_where_def first_row_def)
qed

text \<open>
  Claim C3. For an authenticated caller and a \<open>collectionId\<close> that no collection of the
  caller carries (no such row, or a row of another user), the \<open>createSnippet\<close> handler
  answers \<open>NOT_FOUND\<close> and leaves the store as it was; so does the action on every input
  its schema accepts, and on any input the Snippets table is unchanged.
\<close>

theorem createSnippet_unowned_collection:
  assumes "requireUser ctx = Inr user"
    and "\<not> list_ex (\<lambda>c. c_id c = cs_collectionId input \<and> c_userId c = u_id user)
             (SnippetCollections db)"
  shows "createSnippet_handler input ctx env db = (Inl NOT_FOUND, db) \<and>
         (createSnippet_schema input \<longrightarrow> createSnippet input ctx env db = (Inl NOT_FOUND, db)) \<and>
         Snippets (snd (createSnippet input ctx env db)) = Snippets db"
  using assms ensureCollectionOwned_none [of "cs_collectionId input" "u_id user" db]
  by (simp add: createSnippet_def createSnippet_handler_def)

theorem createSnippet_unowned_collection_witness:
  "requireUser alice = Inr \<lparr>u_id = ''alice''\<rparr> \<and>
   \<not> list_ex (\<lambda>c. c_id c = cs_collectionId into_rust \<and> c_userId c = ''alice'')
        (SnippetCollections store0) \<and>
   list_ex (\<lambda>c. c_id c = cs_collectionId into_rust) (SnippetCollections store0) \<and>
   createSnippet_schema into_rust \<and>
   createSnippet into_rust alice at100 store0 = (Inl NOT_FOUND, store0)"
proof -
  have u: "requireUser alice = Inr \<lparr>u_id = ''alice''\<rparr>"
    by (simp add: requireUser_def alice_def)
  have n: "\<not> list_ex (\<lambda>c. c_id c = cs_collectionId into_rust \<and> c_userId c = u_id \<lparr>u_id = ''alice''\<rparr>)
             (SnippetCollections store0)"
    by (simp add: ex_defs)
  have v: "createSnippet_schema into_rust"
    by (simp add: createSnippet_schema_def into_rust_def)
  from createSnippet_unowned_collection [OF u n, where env = at100] u n v
  show ?thesis by (simp add: ex_defs)
qed

text \<open>
  Claim C4. For a snippet owned by the caller, \<open>updateSnippet\<close> with a \<open>collectionId\<close>
  that differs from the snippet's current one and that no collection of the caller carries
  answers \<open>NOT_FOUND\<close> and leaves the store as it was: no field of the row is written,
  neither \<open>updatedAt\<close> nor any other field supplied in the same input.
\<close>

theorem updateSnippet_unowned_collection:
  assumes "requireUser ctx = Inr user"
    and "ensureSnippetOwned (us_id input) (u_id user) db = Inr existing"
    and "us_collectionId input = Some cid"
    and "cid \<noteq> s_collectionId existing"
    and "\<not> list_ex (\<lambda>c. c_id c = cid \<and> c_userId c = u_id user) (SnippetCollections db)"
  shows "updateSnippet_handler input ctx env db = (Inl NOT_FOUND, db) \<and>
         (updateSnippet_schema input \<longrightarrow> updateSnippet input ctx env db = (Inl NOT_FOUND, db)) \<and>
         snd (updateSnippet input ctx env db) = db"
  using assms ensureCollectionOwned_none [of cid "u_id user" db]
  by (simp add: updateSnippet_def updateSnippet_handler_def)

theorem updateSnippet_unowned_collection_witness:
  "requireUser alice = Inr \<lparr>u_id = ''alice''\<rparr> \<and>
   ensureSnippetOwned (us_id move_to_rust) ''alice'' store0 = Inr sel \<and>
   us_collectionId move_to_rust = Some ''c3'' \<and> ''c3'' \<noteq> s_collectionId sel \<and>
   \<not> list_ex (\<lambda>c. c_id c = ''c3'' \<and> c_userId c = ''alice'') (SnippetCollections store0) \<and>
   us_title move_to_rust = Some ''renamed'' \<and> updateSnippet_schema move_to_rust \<and>
   updateSnippet move_to_rust alice at100 store0 = (Inl NOT_FOUND, store0)"
proof -
  have u: "requireUser alice = Inr \<lparr>u_id = ''alice''\<rparr>"
    by (simp add: requireUser_def alice_def)
  have e: "ensureSnippetOwned (us_id move_to_rust) (u_id \<lparr>u_id = ''alice''\<rparr>) store0 = Inr sel"
    by (simp add: run_defs ex_defs)
  have c: "us_collectionId move_to_rust = Some ''c3''" by (simp add: move_to_rust_def)
  have d: "''c3'' \<noteq> s_collectionId sel" by (simp add: sel_def)
  have n: "\<not> list_ex (\<lambda>c. c_id c = ''c3'' \<and> c_userId c = u_id \<lparr>u_id = ''alice''\<rparr>)
             (SnippetCollections store0)"
    by (simp add: ex_defs)
  have v: "updateSnippet_schema move_to_rust \<and> us_title move_to_rust = Some ''renamed''"
    by (simp add: updateSnippet_schema_def move_to_rust_def)
  from updateSnippet_unowned_collection [OF u e c d n, where env = at100] u e c d n v
  show ?thesis by simp
qed

section \<open>Archiving twice\<close>

lemma ensureSnippetOwned_Inr:
  "ensureSnippetOwned i u db = Inr e \<Longrightarrow> e \<in> set (Snippets db) \<and> s_id e = i \<and> s_userId e = u"
  using first_row_member [of "\<lambda>s. s_id s = i \<and> s_userId s = u" "Snippets db" e]
  by (simp add: ensureSnippetOwned_def split: option.splits)

lemma archive_rows_keep_owner:
  assumes "e \<in> set rows" "s_id e = i" "s_userId e = u"
  shows "\<exists>e'. first_row (select_where (\<lambda>s. s_id s = i \<and> s_userId s = u)
                 (update_where (\<lambda>s. s_id s = i)
                    (\<lambda>s. s\<lparr>s_isArchived := True, s_updatedAt := now\<rparr>) rows)) = Some e'"
proof (rule first_row_exists)
  show "e\<lparr>s_isArchived := True, s_updatedAt := now\<rparr> \<in>
        set (update_where (\<lambda>s. s_id s = i) (\<lambda>s. s\<lparr>s_isArchived := True, s_updatedAt := now\<rparr>) rows)"
    using assms(1,2) by (force simp: update_where_def)
  show "s_id (e\<lparr>s_isArchived := True, s_updatedAt := now\<rparr>) = i \<and>
        s_userId (e\<lparr>s_isArchived := True, s_updatedAt := now\<rparr>) = u"
    using assms(2,3) by simp
qed

lemma archive_rows_archived:
  "list_all (\<lambda>s. s_id s = i \<longrightarrow> s_isArchived s)
     (update_where (\<lambda>s. s_id s = i) (\<lambda>s. s\<lparr>s_isArchived := True, s_updatedAt := now\<rparr>) rows)"
  by (induction rows) (simp_all add: update_where_def)

lemma archive_rows_present:
  "e \<in> set rows \<Longrightarrow> s_id e = i \<Longrightarrow>
   list_ex (\<lambda>s. s_id s = i)
     (update_where (\<lambda>s. s_id s = i) (\<lambda>s. s\<lparr>s_isArchived := True, s_updatedAt := now\<rparr>) rows)"
  by (induction rows) (auto simp: update_where_def)

lemma archiveSnippet_owned:
  assumes "requireUser ctx = Inr user" and "archiveSnippet_schema input"
    and "ensureSnippetOwned (as_id input) (u_id user) db = Inr e"
  shows "archiveSnippet input ctx env db =
           (Inr (as_id input),
            db\<lparr>Snippets := update_where (\<lambda>s. s_id s = as_id input)
                              (\<lambda>s. s\<lparr>s_isArchived := True, s_updatedAt := env_now env\<rparr>)
                              (Snippets db)\<rparr>)"
  using assms ensureSnippetOwned_Inr [OF assms(3)]
  by (simp add: archiveSnippet_def archiveSnippet_handler_def)

lemma archiveSnippet_still_owned:
  assumes "ensureSnippetOwned i u db = Inr e"
  shows "\<exists>e'. ensureSnippetOwned i u
            (db\<lparr>Snippets := update_where (\<lambda>s. s_id s = i)
                              (\<lambda>s. s\<lparr>s_isArchived := True, s_updatedAt := now\<rparr>)
                              (Snippets db)\<rparr>) = Inr e'"
proof -
  from ensureSnippetOwned_Inr [OF assms]
  have "e \<in> set (Snippets db)" "s_id e = i" "s_userId e = u" by simp_all
  from archive_rows_keep_owner [OF this, of now] show ?thesis
    by (auto simp: ensureSnippetOwned_def)
qed

text \<open>
  Claim C6. For a snippet owned by the caller, two \<open>archiveSnippet\<close> calls in sequence on
  its id (at any two times) both succeed and answer the id, and after each of them the
  snippet is in the table with \<open>isArchived = true\<close>.
\<close>

theorem archiveSnippet_idempotent:
  assumes "requireUser ctx = Inr user" and "archiveSnippet_schema input"
    and "ensureSnippetOwned (as_id input) (u_id user) db = Inr existing"
  shows "fst (archiveSnippet input ctx env1 db) = Inr (as_id input) \<and>
         archived_in (as_id input) (snd (archiveSnippet input ctx env1 db)) \<and>
         fst (archiveSnippet input ctx env2 (snd (archiveSnippet input ctx env1 db))) =
           Inr (as_id input) \<and>
         archived_in (as_id input)
           (snd (archiveSnippet input ctx env2 (snd (archiveSnippet input ctx env1 db))))"
proof -
  define db1 where "db1 = db\<lparr>Snippets := update_where (\<lambda>s. s_id s = as_id input)
                              (\<lambda>s. s\<lparr>s_isArchived := True, s_updatedAt := env_now env1\<rparr>)
                              (Snippets db)\<rparr>"
  define db2 where "db2 = db1\<lparr>Snippets := update_where (\<lambda>s. s_id s = as_id input)
                              (\<lambda>s. s\<lparr>s_isArchived := True, s_updatedAt := env_now env2\<rparr>)
                              (Snippets db1)\<rparr>"
  have first: "archiveSnippet input ctx env1 db = (Inr (as_id input), db1)"
    unfolding db1_def by (rule archiveSnippet_owned [OF assms])
  from archiveSnippet_still_owned [OF assms(3), of "env_now env1"]
  obtain e1 where e1: "ensureSnippetOwned (as_id input) (u_id user) db1 = Inr e1"
    unfolding db1_def by blast
  have second: "archiveSnippet input ctx env2 db1 = (Inr (as_id input), db2)"
    unfolding db2_def by (rule archiveSnippet_owned [OF assms(1,2) e1])
  have m0: "existing \<in> set (Snippets db)" "s_id existing = as_id input"
    using ensureSnippetOwned_Inr [OF assms(3)] by simp_all
  have m1: "e1 \<in> set (Snippets db1)" "s_id e1 = as_id input"
    using ensureSnippetOwned_Inr [OF e1] by simp_all
  have a1: "archived_in (as_id input) db1"
    unfolding archived_in_def db1_def
    using archive_rows_archived archive_rows_present [OF m0] by simp
  have a2: "archived_in (as_id input) db2"
    unfolding archived_in_def db2_def
    using archive_rows_archived archive_rows_present [OF m1] by simp
  show ?thesis using a1 a2 by (simp add: first second)
qed

theorem archiveSnippet_idempotent_witness:
  "requireUser alice = Inr \<lparr>u_id = ''alice''\<rparr> \<and> archiveSnippet_schema archive_sel \<and>
   ensureSnippetOwned (as_id archive_sel) ''alice'' store0 = Inr sel \<and>
   fst (archiveSnippet archive_sel alice at100 store0) = Inr ''s1'' \<and>
   archived_in ''s1'' (snd (archiveSnippet archive_sel alice at100 store0)) \<and>
   fst (archiveSnippet archive_sel alice at200 (snd (archiveSnippet archive_sel alice at100 store0)))
     = Inr ''s1'' \<and>
   archived_in ''s1''
     (snd (archiveSnippet archive_sel alice at200 (snd (archiveSnippet archive_sel alice at100 store0))))"
proof -
  have u: "requireUser alice = Inr \<lparr>u_id = ''alice''\<rparr>"
    by (simp add: requireUser_def alice_def)
  have v: "archiveSnippet_schema archive_sel"
    by (simp add: archiveSnippet_schema_def archive_sel_def)
  have e: "ensureSnippetOwned (as_id archive_sel) (u_id \<lparr>u_id = ''alice''\<rparr>) store0 = Inr sel"
    by (simp add: run_defs ex_defs)
  have i: "as_id archive_sel = ''s1''" by (simp add: archive_sel_def)
  from archiveSnippet_idempotent [OF u v e, where ?env1.0 = at100 and ?env2.0 = at200] u v e
  show ?thesis by (simp add: i)
qed

section \<open>Listing\<close>

lemma order_desc_page_found:
  assumes "order_desc_page col limit offset (select_where p rows) = Inr found"
  shows "(\<forall>x\<in>set found. x \<in> set rows \<and> p x) \<and> (0 \<le> limit \<longrightarrow> length found \<le> nat limit)"
proof -
  let ?skipped = "drop (nat offset) (sort_key (\<lambda>r. - col r) (select_where p rows))"
  from assms have f: "found = (if limit < 0 then ?skipped else take (nat limit) ?skipped)"
    by (auto simp: order_desc_page_def Let_def split: if_splits)
  then have "set found \<subseteq> set ?skipped"
    using set_take_subset [of "nat limit" ?skipped] by auto
  also have "\<dots> \<subseteq> set (sort_key (\<lambda>r. - col r) (select_where p rows))"
    by (rule set_drop_subset)
  also have "\<dots> = set (filter p rows)" by (simp add: select_where_def)
  finally have "\<forall>x\<in>set found. x \<in> set rows \<and> p x" by auto
  moreover from f have "0 \<le> limit \<longrightarrow> length found \<le> nat limit" by simp
  ultimately show ?thesis by blast
qed

lemma parse_pageSize_range: "parse_pageSize p = Some n \<Longrightarrow> 0 < n \<and> n \<le> 100"
  by (auto simp: parse_pageSize_def split: option.splits if_splits)

lemma parse_page_range: "parse_page p = Some n \<Longrightarrow> 0 < n"
  by (auto simp: parse_page_def split: option.splits if_splits)

lemma listSnippets_schema_range:
  "listSnippets_schema raw = Some input \<Longrightarrow>
   0 < ls_page input \<and> 0 < ls_pageSize input \<and> ls_pageSize input \<le> 100"
  by (auto simp: listSnippets_schema_def split: option.splits
        dest: parse_page_range parse_pageSize_range)

lemma listMySnippetCollections_schema_range:
  "listMySnippetCollections_schema raw = Some input \<Longrightarrow>
   0 < lc_page input \<and> 0 < lc_pageSize input \<and> lc_pageSize input \<le> 100"
  by (auto simp: listMySnippetCollections_schema_def split: option.splits
        dest: parse_page_range parse_pageSize_range)

lemma listSnippets_handler_items:
  assumes "listSnippets_handler input ctx db = (Inr page, db')"
  shows "(\<forall>s\<in>set (items page). ls_includeArchived input \<or> \<not> s_isArchived s) \<and>
         total page = length (items page) \<and>
         (0 \<le> ls_pageSize input \<longrightarrow> length (items page) \<le> nat (ls_pageSize input)) \<and>
         db' = db"
  using assms
  by (auto simp: listSnippets_handler_def Let_def and_filters_def
        split: option.splits sum.splits if_splits
        dest!: order_desc_page_found)

lemma listSnippets_items:
  assumes "listSnippets raw ctx db = (Inr page, db')"
  shows "\<exists>input. listSnippets_schema raw = Some input \<and>
           (\<forall>s\<in>set (items page). ls_includeArchived input \<or> \<not> s_isArchived s) \<and>
           total page = length (items page) \<and>
           length (items page) \<le> nat (ls_pageSize input) \<and> db' = db"
proof -
  from assms obtain input where sch: "listSnippets_schema raw = Some input"
    and run: "listSnippets_handler input ctx db = (Inr page, db')"
    by (auto simp: listSnippets_def split: option.splits)
  from listSnippets_schema_range [OF sch] have "0 \<le> ls_pageSize input" by simp
  with listSnippets_handler_items [OF run] sch show ?thesis by blast
qed

text \<open>
  Claim C7. When \<open>includeArchived\<close> is false or omitted (the schema's default is false),
  every row of the items that \<open>listSnippets\<close> returns has \<open>isArchived = false\<close>.
\<close>

theorem listSnippets_excludes_archived:
  assumes "listSnippets raw ctx db = (Inr page, db')"
    and "lsr_includeArchived raw = None \<or> lsr_includeArchived raw = Some False"
  shows "list_all (\<lambda>s. s_isArchived s = False) (items page)"
proof -
  from listSnippets_items [OF assms(1)] obtain input where
    sch: "listSnippets_schema raw = Some input" and
    it: "\<forall>s\<in>set (items page). ls_includeArchived input \<or> \<not> s_isArchived s"
    by blast
  from sch assms(2) have "\<not> ls_includeArchived input"
    by (auto simp: listSnippets_schema_def split: option.splits)
  with it show ?thesis by (simp add: list_all_iff)
qed

lemma list_default_ex:
  "listSnippets list_default alice store0 = (Inr \<lparr>items = [sel], total = 1\<rparr>, store0)"
  by (simp add: listSnippets_def listSnippets_schema_def listSnippets_handler_def
        run_defs ex_defs)

theorem listSnippets_excludes_archived_witness:
  "listSnippets list_default alice store0 = (Inr \<lparr>items = [sel], total = 1\<rparr>, store0) \<and>
   (lsr_includeArchived list_default = None \<or> lsr_includeArchived list_default = Some False) \<and>
   list_ex s_isArchived (Snippets store0) \<and>
   list_all (\<lambda>s. s_isArchived s = False) (items \<lparr>items = [sel], total = 1\<rparr>)"
proof -
  have h: "lsr_includeArchived list_default = None \<or> lsr_includeArchived list_default = Some False"
    by (simp add: list_default_def)
  have a: "list_ex s_isArchived (Snippets store0)" by (simp add: ex_defs)
  from listSnippets_excludes_archived [OF list_default_ex h] list_default_ex h a
  show ?thesis by blast
qed

lemma listMySnippetCollections_items:
  assumes "listMySnippetCollections raw ctx db = (Inr page, db')"
  shows "\<exists>input. listMySnippetCollections_schema raw = Some input \<and>
           total page = length (items page) \<and>
           length (items page) \<le> nat (lc_pageSize input)"
proof -
  from assms obtain input where sch: "listMySnippetCollections_schema raw = Some input"
    and run: "listMySnippetCollections_handler input ctx db = (Inr page, db')"
    by (auto simp: listMySnippetCollections_def split: option.splits)
  from listMySnippetCollections_schema_range [OF sch] have r: "0 \<le> lc_pageSize input" by simp
  from run r have "total page = length (items page) \<and>
                   length (items page) \<le> nat (lc_pageSize input)"
    by (auto simp: listMySnippetCollections_handler_def Let_def split: sum.splits
          dest!: order_desc_page_found)
  with sch show ?thesis by blast
qed

text \<open>
  Claim C8. In the answers of \<open>listMySnippetCollections\<close> and \<open>listSnippets\<close>, \<open>total\<close> is
  the length of the returned items, the page after offset and limit, and so never more
  than \<open>pageSize\<close>; it is not the number of rows that match the filter.
\<close>

theorem list_total_is_page_length:
  "(listMySnippetCollections craw ctx db = (Inr cpage, db1) \<longrightarrow>
      total cpage = length (items cpage) \<and>
      (\<exists>input. listMySnippetCollections_schema craw = Some input \<and>
                total cpage \<le> nat (lc_pageSize input))) \<and>
   (listSnippets sraw ctx db = (Inr spage, db2) \<longrightarrow>
      total spage = length (items spage) \<and>
      (\<exists>input. listSnippets_schema sraw = Some input \<and>
                total spage \<le> nat (ls_pageSize input)))"
proof (intro conjI impI)
  assume a: "listMySnippetCollections craw ctx db = (Inr cpage, db1)"
  from listMySnippetCollections_items [OF a]
  show "total cpage = length (items cpage)" by blast
  from listMySnippetCollections_items [OF a]
  show "\<exists>input. listMySnippetCollections_schema craw = Some input \<and>
                total cpage \<le> nat (lc_pageSize input)"
    by auto
next
  assume a: "listSnippets sraw ctx db = (Inr spage, db2)"
  from listSnippets_items [OF a] show "total spage = length (items spage)" by blast
  from listSnippets_items [OF a]
  show "\<exists>input. listSnippets_schema sraw = Some input \<and> total spage \<le> nat (ls_pageSize input)"
    by auto
qed

lemma first_of_one_ex:
  "listMySnippetCollections first_of_one alice store0 = (Inr \<lparr>items = [go], total = 1\<rparr>, store0)"
  by (simp add: listMySnippetCollections_def listMySnippetCollections_schema_def
        listMySnippetCollections_handler_def run_defs ex_defs)

lemma list_one_ex:
  "listSnippets list_one alice store0 = (Inr \<lparr>items = [old], total = 1\<rparr>, store0)"
  by (simp add: listSnippets_def listSnippets_schema_def listSnippets_handler_def
        run_defs ex_defs)

theorem list_total_is_page_length_witness:
  "listMySnippetCollections first_of_one alice store0 = (Inr \<lparr>items = [go], total = 1\<rparr>, store0) \<and>
   listSnippets list_one alice store0 = (Inr \<lparr>items = [old], total = 1\<rparr>, store0) \<and>
   total \<lparr>items = [go], total = 1\<rparr> = length (items \<lparr>items = [go], total = 1\<rparr>) \<and>
   total \<lparr>items = [old], total = 1\<rparr> = length (items \<lparr>items = [old], total = 1\<rparr>) \<and>
   length (select_where (\<lambda>c. c_userId c = ''alice'') (SnippetCollections store0)) = 2 \<and>
   length (select_where (\<lambda>s. s_userId s = ''alice'') (Snippets store0)) = 2"
proof -
  have n: "length (select_where (\<lambda>c. c_userId c = ''alice'') (SnippetCollections store0)) = 2"
    "length (select_where (\<lambda>s. s_userId s = ''alice'') (Snippets store0)) = 2"
    by (simp_all add: select_where_def ex_defs)
  from list_total_is_page_length [where craw = first_of_one and ctx = alice and db = store0
      and cpage = "\<lparr>items = [go], total = 1\<rparr>" and ?db1.0 = store0 and sraw = list_one
      and spage = "\<lparr>items = [old], total = 1\<rparr>" and ?db2.0 = store0]
    first_of_one_ex list_one_ex n
  show ?thesis by blast
qed

lemma listSnippets_schema_collectionId:
  "listSnippets_schema (raw\<lparr>lsr_collectionId := v\<rparr>) =
   map_option (\<lambda>i. i\<lparr>ls_collectionId := v\<rparr>) (listSnippets_schema raw)"
  by (simp add: listSnippets_schema_def split: option.splits)

lemma listSnippets_handler_empty_id:
  "listSnippets_handler (input\<lparr>ls_collectionId := Some []\<rparr>) ctx db =
   listSnippets_handler (input\<lparr>ls_collectionId := None\<rparr>) ctx db"
  by (simp add: listSnippets_handler_def Let_def split: sum.splits)

lemma requireUser_error: "requireUser ctx = Inl e \<Longrightarrow> e = UNAUTHORIZED"
  by (simp add: requireUser_def split: option.splits)

lemma and_filters_2:
  "and_filters [f, g] = (\<lambda>r. f r \<and> g r)" "and_filters [f] = f"
  by (rule ext, simp add: and_filters_def)+

lemma order_desc_page_refused:
  "2 ^ 63 \<le> offset \<Longrightarrow> order_desc_page col limit offset rows = Inl INTERNAL_SERVER_ERROR"
  by (simp add: order_desc_page_def)

lemma order_desc_page_accepted:
  "0 \<le> limit \<Longrightarrow> limit \<le> 100 \<Longrightarrow> offset < 2 ^ 63 \<Longrightarrow>
   order_desc_page col limit offset rows =
     Inr (take (nat limit) (drop (nat offset) (sort_key (\<lambda>r. - col r) rows)))"
  by (simp add: order_desc_page_def Let_def)

lemma listSnippets_no_collection:
  assumes "listSnippets_schema raw = Some input" and "requireUser ctx = Inr user"
  shows "listSnippets (raw\<lparr>lsr_collectionId := Some []\<rparr>) ctx db =
         (case order_desc_page s_updatedAt (ls_pageSize input)
                 (js_offset (ls_page input) (ls_pageSize input))
                 (select_where (\<lambda>s. s_userId s = u_id user \<and>
                                     (ls_includeArchived input \<or> \<not> s_isArchived s))
                    (Snippets db)) of
            Inl e \<Rightarrow> (Inl e, db)
          | Inr found \<Rightarrow> (Inr \<lparr>items = found, total = length found\<rparr>, db))"
  using assms
  by (simp add: listSnippets_def listSnippets_schema_collectionId listSnippets_handler_def
        Let_def and_filters_2)

text \<open>
  Claim C10. \<open>listSnippets\<close> with \<open>collectionId\<close> the empty string answers exactly what it
  answers with \<open>collectionId\<close> omitted: the schema accepts the one input whenever it accepts
  the other, no ownership check is made and the answer is never \<open>NOT_FOUND\<close>. For an
  authenticated caller and an accepted input, when the offset the handler computes is
  below \<open>2 ^ 63\<close> the answer is the page of the caller's snippets over all collections;
  from \<open>2 ^ 63\<close> on the store refuses the offset and the answer is the store's error,
  with \<open>collectionId\<close> empty as with \<open>collectionId\<close> omitted. The offset is
  \<open>(page - 1) * pageSize\<close> itself when that is below \<open>2 ^ 53\<close>.
\<close>

theorem listSnippets_empty_collectionId:
  "listSnippets (raw\<lparr>lsr_collectionId := Some []\<rparr>) ctx db =
     listSnippets (raw\<lparr>lsr_collectionId := None\<rparr>) ctx db \<and>
   (listSnippets_schema (raw\<lparr>lsr_collectionId := Some []\<rparr>) = None) =
     (listSnippets_schema raw = None) \<and>
   fst (listSnippets (raw\<lparr>lsr_collectionId := Some []\<rparr>) ctx db) \<noteq> Inl NOT_FOUND \<and>
   (\<forall>input user. listSnippets_schema raw = Some input \<and> requireUser ctx = Inr user \<and>
      js_offset (ls_page input) (ls_pageSize input) < 2 ^ 63 \<longrightarrow>
      (let rows = take (nat (ls_pageSize input))
                    (drop (nat (js_offset (ls_page input) (ls_pageSize input)))
                       (sort_key (\<lambda>s. - s_updatedAt s)
                          (filter (\<lambda>s. s_userId s = u_id user \<and>
                                       (ls_includeArchived input \<or> \<not> s_isArchived s))
                             (Snippets db))))
       in listSnippets (raw\<lparr>lsr_collectionId := Some []\<rparr>) ctx db =
            (Inr \<lparr>items = rows, total = length rows\<rparr>, db))) \<and>
   (\<forall>input user. listSnippets_schema raw = Some input \<and> requireUser ctx = Inr user \<and>
      2 ^ 63 \<le> js_offset (ls_page input) (ls_pageSize input) \<longrightarrow>
      listSnippets (raw\<lparr>lsr_collectionId := Some []\<rparr>) ctx db =
        (Inl INTERNAL_SERVER_ERROR, db)) \<and>
   (\<forall>input. listSnippets_schema raw = Some input \<and>
      (ls_page input - 1) * ls_pageSize input < 2 ^ 53 \<longrightarrow>
      js_offset (ls_page input) (ls_pageSize input) = (ls_page input - 1) * ls_pageSize input)"
proof (intro conjI allI impI)
  show "listSnippets (raw\<lparr>lsr_collectionId := Some []\<rparr>) ctx db =
        listSnippets (raw\<lparr>lsr_collectionId := None\<rparr>) ctx db"
    by (simp add: listSnippets_def listSnippets_schema_collectionId
          listSnippets_handler_empty_id split: option.splits)
  show "(listSnippets_schema (raw\<lparr>lsr_collectionId := Some []\<rparr>) = None) =
        (listSnippets_schema raw = None)"
    by (simp add: listSnippets_schema_collectionId)
  show "fst (listSnippets (raw\<lparr>lsr_collectionId := Some []\<rparr>) ctx db) \<noteq> Inl NOT_FOUND"
    by (auto simp: listSnippets_def listSnippets_schema_collectionId listSnippets_handler_def
          Let_def order_desc_page_def split: option.splits sum.splits if_splits
          dest: requireUser_error)
next
  fix input user
  assume a: "listSnippets_schema raw = Some input \<and> requireUser ctx = Inr user \<and>
      js_offset (ls_page input) (ls_pageSize input) < 2 ^ 63"
  then have r: "0 \<le> ls_pageSize input" "ls_pageSize input \<le> 100"
    using listSnippets_schema_range [of raw input] by simp_all
  from a have "listSnippets (raw\<lparr>lsr_collectionId := Some []\<rparr>) ctx db =
         (case order_desc_page s_updatedAt (ls_pageSize input)
                 (js_offset (ls_page input) (ls_pageSize input))
                 (select_where (\<lambda>s. s_userId s = u_id user \<and>
                                     (ls_includeArchived input \<or> \<not> s_isArchived s))
                    (Snippets db)) of
            Inl e \<Rightarrow> (Inl e, db)
          | Inr found \<Rightarrow> (Inr \<lparr>items = found, total = length found\<rparr>, db))"
    by (intro listSnippets_no_collection) simp_all
  with a r show "let rows = take (nat (ls_pageSize input))
                    (drop (nat (js_offset (ls_page input) (ls_pageSize input)))
                       (sort_key (\<lambda>s. - s_updatedAt s)
                          (filter (\<lambda>s. s_userId s = u_id user \<and>
                                       (ls_includeArchived input \<or> \<not> s_isArchived s))
                             (Snippets db))))
       in listSnippets (raw\<lparr>lsr_collectionId := Some []\<rparr>) ctx db =
            (Inr \<lparr>items = rows, total = length rows\<rparr>, db)"
    by (simp add: order_desc_page_accepted select_where_def Let_def)
next
  fix input user
  assume a: "listSnippets_schema raw = Some input \<and> requireUser ctx = Inr user \<and>
      2 ^ 63 \<le> js_offset (ls_page input) (ls_pageSize input)"
  then have "listSnippets (raw\<lparr>lsr_collectionId := Some []\<rparr>) ctx db =
         (case order_desc_page s_updatedAt (ls_pageSize input)
                 (js_offset (ls_page input) (ls_pageSize input))
                 (select_where (\<lambda>s. s_userId s = u_id user \<and>
                                     (ls_includeArchived input \<or> \<not> s_isArchived s))
                    (Snippets db)) of
            Inl e \<Rightarrow> (Inl e, db)
          | Inr found \<Rightarrow> (Inr \<lparr>items = found, total = length found\<rparr>, db))"
    by (intro listSnippets_no_collection) simp_all
  with a show "listSnippets (raw\<lparr>lsr_collectionId := Some []\<rparr>) ctx db =
        (Inl INTERNAL_SERVER_ERROR, db)"
    by (simp add: order_desc_page_refused)
next
  fix input
  assume a: "listSnippets_schema raw = Some input \<and>
      (ls_page input - 1) * ls_pageSize input < 2 ^ 53"
  with listSnippets_schema_range [of raw input]
  show "js_offset (ls_page input) (ls_pageSize input) = (ls_page input - 1) * ls_pageSize input"
    by (intro js_offset_exact) simp_all
qed

lemma far_offset: "2 ^ 63 \<le> js_offset 1000000000000000000 20"
  by code_simp

theorem listSnippets_empty_collectionId_witness:
  "listSnippets_schema list_default =
     Some \<lparr>ls_collectionId = None, ls_includeArchived = False, ls_page = 1, ls_pageSize = 20\<rparr> \<and>
   requireUser alice = Inr \<lparr>u_id = ''alice''\<rparr> \<and>
   ((1::int) - 1) * 20 < 2 ^ 53 \<and> js_offset 1 20 = 0 \<and>
   listSnippets (list_default\<lparr>lsr_collectionId := Some []\<rparr>) alice store0 =
     listSnippets list_default alice store0 \<and>
   listSnippets (list_default\<lparr>lsr_collectionId := Some []\<rparr>) alice store0 =
     (Inr \<lparr>items = [sel], total = 1\<rparr>, store0) \<and>
   ensureCollectionOwned [] ''alice'' store0 = Inl NOT_FOUND \<and>
   listSnippets_schema list_far =
     Some \<lparr>ls_collectionId = None, ls_includeArchived = False,
           ls_page = 1000000000000000000, ls_pageSize = 20\<rparr> \<and>
   2 ^ 63 \<le> js_offset 1000000000000000000 20 \<and>
   listSnippets (list_far\<lparr>lsr_collectionId := Some []\<rparr>) alice store0 =
     (Inl INTERNAL_SERVER_ERROR, store0) \<and>
   listSnippets list_far alice store0 = (Inl INTERNAL_SERVER_ERROR, store0)"
proof -
  have n: "list_default\<lparr>lsr_collectionId := None\<rparr> = list_default"
    "list_far\<lparr>lsr_collectionId := None\<rparr> = list_far"
    by (simp_all add: list_default_def list_far_def)
  have e: "ensureCollectionOwned [] ''alice'' store0 = Inl NOT_FOUND"
    by (simp add: run_defs ex_defs)
  have u: "requireUser alice = Inr \<lparr>u_id = ''alice''\<rparr>"
    by (simp add: requireUser_def alice_def)
  let ?i1 = "\<lparr>ls_collectionId = None, ls_includeArchived = False, ls_page = 1,
              ls_pageSize = 20\<rparr>"
  let ?i2 = "\<lparr>ls_collectionId = None, ls_includeArchived = False,
              ls_page = 1000000000000000000, ls_pageSize = 20\<rparr>"
  let ?u = "\<lparr>u_id = ''alice''\<rparr>"
  have s1: "listSnippets_schema list_default = Some ?i1"
    by (simp add: listSnippets_schema_def parse_page_def parse_pageSize_def list_default_def)
  have s2: "listSnippets_schema list_far = Some ?i2"
    by (simp add: listSnippets_schema_def parse_page_def parse_pageSize_def list_far_def)
  note t1 = listSnippets_empty_collectionId [of list_default alice store0]
  note t2 = listSnippets_empty_collectionId [of list_far alice store0]
  have x1: "(ls_page ?i1 - 1) * ls_pageSize ?i1 < 2 ^ 53" by simp
  have o1: "js_offset (ls_page ?i1) (ls_pageSize ?i1) = 0"
    using t1 [THEN conjunct2, THEN conjunct2, THEN conjunct2, THEN conjunct2, THEN conjunct2,
        rule_format, of ?i1, OF conjI [OF s1 x1]] by simp
  have b1: "js_offset (ls_page ?i1) (ls_pageSize ?i1) < 2 ^ 63" unfolding o1 by simp
  have b2: "2 ^ 63 \<le> js_offset (ls_page ?i2) (ls_pageSize ?i2)"
    using far_offset by simp
  have rows: "take (nat (ls_pageSize ?i1))
                (drop (nat (js_offset (ls_page ?i1) (ls_pageSize ?i1)))
                   (sort_key (\<lambda>s. - s_updatedAt s)
                      (filter (\<lambda>s. s_userId s = u_id ?u \<and>
                                   (ls_includeArchived ?i1 \<or> \<not> s_isArchived s))
                         (Snippets store0)))) = [sel]"
    unfolding o1 by (simp add: sel_def old_def store0_def)
  have a1: "listSnippets (list_default\<lparr>lsr_collectionId := Some []\<rparr>) alice store0 =
     listSnippets list_default alice store0"
    using t1 [THEN conjunct1] unfolding n .
  have a2: "listSnippets (list_default\<lparr>lsr_collectionId := Some []\<rparr>) alice store0 =
     (Inr \<lparr>items = [sel], total = 1\<rparr>, store0)"
    using t1 [THEN conjunct2, THEN conjunct2, THEN conjunct2, THEN conjunct1, rule_format,
        of ?i1 ?u, OF conjI [OF s1 conjI [OF u b1]]]
    unfolding Let_def rows by simp
  have a3: "listSnippets (list_far\<lparr>lsr_collectionId := Some []\<rparr>) alice store0 =
     (Inl INTERNAL_SERVER_ERROR, store0)"
    by (rule t2 [THEN conjunct2, THEN conjunct2, THEN conjunct2, THEN conjunct2, THEN conjunct1,
        rule_format, of ?i2 ?u, OF conjI [OF s2 conjI [OF u b2]]])
  have a4: "listSnippets list_far alice store0 = (Inl INTERNAL_SERVER_ERROR, store0)"
    using t2 [THEN conjunct1] a3 unfolding n by simp
  from a1 a2 a3 a4 e u s1 s2 o1 far_offset show ?thesis by simp
qed

section \<open>What the default-clearing statement writes\<close>

lemma mem_update_where:
  "r \<in> set rows \<Longrightarrow> (if p r then f r else r) \<in> set (update_where p f rows)"
  by (simp add: update_where_def)

lemma all_update_where:
  "(\<And>r. r \<in> set rows \<Longrightarrow> q (if p r then f r else r)) \<Longrightarrow> list_all q (update_where p f rows)"
  by (induction rows) (simp_all add: update_where_def)

lemma create_default_rows:
  assumes "requireUser ctx = Inr user" and "createSnippetCollection_schema ci"
    and "csc_isDefault ci = Some True"
  shows "\<exists>extra. SnippetCollections (snd (createSnippetCollection ci ctx env db)) =
           update_where (\<lambda>c. c_userId c = u_id user)
             (\<lambda>c. c\<lparr>c_isDefault := False, c_updatedAt := env_now env\<rparr>)
             (SnippetCollections db) @ extra \<and>
           list_all (\<lambda>c. c_updatedAt c = env_now env) extra"
  using assms
  by (simp add: createSnippetCollection_def createSnippetCollection_handler_def Let_def
        insert_collection_def clear_defaults_def split: sum.splits)

text \<open>
  Claim C9. When \<open>createSnippetCollection\<close> or \<open>updateSnippetCollection\<close> runs with
  \<open>isDefault = true\<close> (for the update, on a collection the caller owns), the clearing
  statement writes \<open>updatedAt = now\<close> on every collection of the caller: each sibling row
  is in the table afterwards with \<open>isDefault = false\<close> and \<open>updatedAt = now\<close> and its other
  fields as they were, and every row of the caller has \<open>updatedAt = now\<close>.
\<close>

theorem default_clearing_bumps_siblings:
  "(requireUser ctx = Inr user \<and> createSnippetCollection_schema ci \<and>
    csc_isDefault ci = Some True \<longrightarrow>
      (\<forall>c\<in>set (SnippetCollections db). c_userId c = u_id user \<longrightarrow>
         c\<lparr>c_isDefault := False, c_updatedAt := env_now env\<rparr>
           \<in> set (SnippetCollections (snd (createSnippetCollection ci ctx env db)))) \<and>
      list_all (\<lambda>c. c_userId c = u_id user \<longrightarrow> c_updatedAt c = env_now env)
        (SnippetCollections (snd (createSnippetCollection ci ctx env db)))) \<and>
   (requireUser ctx = Inr user \<and> updateSnippetCollection_schema ui \<and>
    usc_isDefault ui = Some True \<and>
    ensureCollectionOwned (usc_id ui) (u_id user) db = Inr existing \<longrightarrow>
      (\<forall>c\<in>set (SnippetCollections db). c_userId c = u_id user \<and> c_id c \<noteq> usc_id ui \<longrightarrow>
         c\<lparr>c_isDefault := False, c_updatedAt := env_now env\<rparr>
           \<in> set (SnippetCollections (snd (updateSnippetCollection ui ctx env db)))) \<and>
      list_all (\<lambda>c. c_userId c = u_id user \<longrightarrow> c_updatedAt c = env_now env)
        (SnippetCollections (snd (updateSnippetCollection ui ctx env db))))"
proof (intro conjI impI ballI; (elim conjE)?)
  fix c
  assume a: "requireUser ctx = Inr user" "createSnippetCollection_schema ci"
    "csc_isDefault ci = Some True"
    and c: "c \<in> set (SnippetCollections db)" "c_userId c = u_id user"
  from create_default_rows [OF a, of env db] obtain extra where
    rows: "SnippetCollections (snd (createSnippetCollection ci ctx env db)) =
           update_where (\<lambda>c. c_userId c = u_id user)
             (\<lambda>c. c\<lparr>c_isDefault := False, c_updatedAt := env_now env\<rparr>)
             (SnippetCollections db) @ extra" by blast
  from mem_update_where [OF c(1), of "\<lambda>c. c_userId c = u_id user"
      "\<lambda>c. c\<lparr>c_isDefault := False, c_updatedAt := env_now env\<rparr>"] c(2)
  show "c\<lparr>c_isDefault := False, c_updatedAt := env_now env\<rparr>
           \<in> set (SnippetCollections (snd (createSnippetCollection ci ctx env db)))"
    by (simp add: rows)
next
  assume a: "requireUser ctx = Inr user" "createSnippetCollection_schema ci"
    "csc_isDefault ci = Some True"
  from create_default_rows [OF a, of env db] obtain extra where
    rows: "SnippetCollections (snd (createSnippetCollection ci ctx env db)) =
           update_where (\<lambda>c. c_userId c = u_id user)
             (\<lambda>c. c\<lparr>c_isDefault := False, c_updatedAt := env_now env\<rparr>)
             (SnippetCollections db) @ extra"
    and extra: "list_all (\<lambda>c. c_updatedAt c = env_now env) extra" by blast
  have "list_all (\<lambda>c. c_userId c = u_id user \<longrightarrow> c_updatedAt c = env_now env)
          (update_where (\<lambda>c. c_userId c = u_id user)
             (\<lambda>c. c\<lparr>c_isDefault := False, c_updatedAt := env_now env\<rparr>)
             (SnippetCollections db))"
    by (rule all_update_where) simp
  with extra show "list_all (\<lambda>c. c_userId c = u_id user \<longrightarrow> c_updatedAt c = env_now env)
        (SnippetCollections (snd (createSnippetCollection ci ctx env db)))"
    by (auto simp: rows list_all_iff)
next
  fix c
  assume a: "requireUser ctx = Inr user" "updateSnippetCollection_schema ui"
    "usc_isDefault ui = Some True"
    "ensureCollectionOwned (usc_id ui) (u_id user) db = Inr existing"
    and c: "c \<in> set (SnippetCollections db)" "c_userId c = u_id user" "c_id c \<noteq> usc_id ui"
  have id: "c_id existing = usc_id ui" using ensureCollectionOwned_Inr [OF a(4)] by simp
  have "c\<lparr>c_isDefault := False, c_updatedAt := env_now env\<rparr> \<in>
        set (update_where (\<lambda>c. c_userId c = u_id user)
             (\<lambda>c. c\<lparr>c_isDefault := False, c_updatedAt := env_now env\<rparr>)
             (SnippetCollections db))"
    using mem_update_where [OF c(1), of "\<lambda>c. c_userId c = u_id user"
      "\<lambda>c. c\<lparr>c_isDefault := False, c_updatedAt := env_now env\<rparr>"] c(2) by simp
  from mem_update_where [OF this, of "\<lambda>c. c_id c = usc_id ui"] c(3)
  show "c\<lparr>c_isDefault := False, c_updatedAt := env_now env\<rparr>
           \<in> set (SnippetCollections (snd (updateSnippetCollection ui ctx env db)))"
    using a id
    by (simp add: updateSnippetCollection_def updateSnippetCollection_handler_def Let_def
          clear_defaults_def)
next
  assume a: "requireUser ctx = Inr user" "updateSnippetCollection_schema ui"
    "usc_isDefault ui = Some True"
    "ensureCollectionOwned (usc_id ui) (u_id user) db = Inr existing"
  have "list_all (\<lambda>c. c_userId c = u_id user \<longrightarrow> c_updatedAt c = env_now env)
          (update_where (\<lambda>c. c_id c = c_id existing) (set_collection upd)
            (update_where (\<lambda>c. c_userId c = u_id user)
             (\<lambda>c. c\<lparr>c_isDefault := False, c_updatedAt := env_now env\<rparr>)
             (SnippetCollections db)))" if "cu_updatedAt upd = Some (env_now env)" for upd
    using that by (auto simp: update_where_def list_all_iff set_collection_def)
  then show "list_all (\<lambda>c. c_userId c = u_id user \<longrightarrow> c_updatedAt c = env_now env)
        (SnippetCollections (snd (updateSnippetCollection ui ctx env db)))"
    using a
    by (simp add: updateSnippetCollection_def updateSnippetCollection_handler_def Let_def
          clear_defaults_def)
qed


theorem default_clearing_bumps_siblings_witness:
  "requireUser alice = Inr \<lparr>u_id = ''alice''\<rparr> \<and>
   createSnippetCollection_schema new_default \<and> csc_isDefault new_default = Some True \<and>
   updateSnippetCollection_schema make_go_default \<and> usc_isDefault make_go_default = Some True \<and>
   ensureCollectionOwned (usc_id make_go_default) ''alice'' store0 = Inr go \<and>
   go \<in> set (SnippetCollections store0) \<and> c_userId go = ''alice'' \<and> c_updatedAt go = 20 \<and>
   go\<lparr>c_isDefault := False, c_updatedAt := 100\<rparr>
     \<in> set (SnippetCollections (snd (createSnippetCollection new_default alice at100 store0))) \<and>
   sql \<in> set (SnippetCollections store0) \<and> c_userId sql = ''alice'' \<and>
   c_id sql \<noteq> usc_id make_go_default \<and> c_updatedAt sql = 10 \<and>
   sql\<lparr>c_isDefault := False, c_updatedAt := 100\<rparr>
     \<in> set (SnippetCollections (snd (updateSnippetCollection make_go_default alice at100 store0)))"
proof -
  have u: "requireUser alice = Inr \<lparr>u_id = ''alice''\<rparr>"
    by (simp add: requireUser_def alice_def)
  have v: "createSnippetCollection_schema new_default" "csc_isDefault new_default = Some True"
    "updateSnippetCollection_schema make_go_default" "usc_isDefault make_go_default = Some True"
    by (simp_all add: createSnippetCollection_schema_def updateSnippetCollection_schema_def
          new_default_def make_go_default_def)
  have e: "ensureCollectionOwned (usc_id make_go_default) (u_id \<lparr>u_id = ''alice''\<rparr>) store0 = Inr go"
    by (simp add: run_defs ex_defs)
  have m: "go \<in> set (SnippetCollections store0)" "c_userId go = u_id \<lparr>u_id = ''alice''\<rparr>"
    "c_updatedAt go = 20" "sql \<in> set (SnippetCollections store0)"
    "c_userId sql = u_id \<lparr>u_id = ''alice''\<rparr>" "c_id sql \<noteq> usc_id make_go_default"
    "c_updatedAt sql = 10" "env_now at100 = 100"
    by (simp_all add: ex_defs)
  note t = default_clearing_bumps_siblings [where ctx = alice and user = "\<lparr>u_id = ''alice''\<rparr>"
      and ci = new_default and db = store0 and env = at100 and ui = make_go_default
      and existing = go]
  from t u v e have
    "\<forall>c\<in>set (SnippetCollections store0). c_userId c = u_id \<lparr>u_id = ''alice''\<rparr> \<longrightarrow>
         c\<lparr>c_isDefault := False, c_updatedAt := env_now at100\<rparr>
           \<in> set (SnippetCollections (snd (createSnippetCollection new_default alice at100 store0)))"
    "\<forall>c\<in>set (SnippetCollections store0).
         c_userId c = u_id \<lparr>u_id = ''alice''\<rparr> \<and> c_id c \<noteq> usc_id make_go_default \<longrightarrow>
         c\<lparr>c_isDefault := False, c_updatedAt := env_now at100\<rparr>
           \<in> set (SnippetCollections (snd (updateSnippetCollection make_go_default alice at100 store0)))"
    by blast+
  from this(1) [rule_format, OF m(1) m(2)] this(2) [rule_format, OF m(4) conjI [OF m(5) m(6)]]
    u v e m
  show ?thesis by simp
qed

section \<open>The archival flag over one call\<close>

lemma same_key_same_row:
  "distinct (map k rows) \<Longrightarrow> e \<in> set rows \<Longrightarrow> r \<in> set rows \<Longrightarrow> k r = k e \<Longrightarrow> r = e"
  by (meson distinct_map inj_onD)

lemma ensureSnippetOwned_none:
  "\<not> list_ex (\<lambda>s. s_id s = x \<and> s_userId s = u) (Snippets db) \<Longrightarrow>
   ensureSnippetOwned x u db = Inl NOT_FOUND"
proof -
  assume "\<not> list_ex (\<lambda>s. s_id s = x \<and> s_userId s = u) (Snippets db)"
  then have "filter (\<lambda>s. s_id s = x \<and> s_userId s = u) (Snippets db) = []"
    by (simp add: filter_empty_conv list_ex_iff)
  then show ?thesis
    by (simp add: ensureSnippetOwned_def select_where_def first_row_def)
qed

lemma ensureSnippetOwned_owns:
  "requireUser ctx = Inr user \<Longrightarrow> ensureSnippetOwned x (u_id user) db = Inr e \<Longrightarrow>
   owns_snippet (caller ctx) x db"
  using ensureSnippetOwned_Inr [of x "u_id user" db e]
  by (auto simp: owns_snippet_def caller_def list_ex_iff)

lemma not_owned_cases:
  assumes "\<not> owns_snippet (caller ctx) x db"
  shows "(\<exists>e. requireUser ctx = Inl e) \<or>
         (\<exists>user. requireUser ctx = Inr user \<and> ensureSnippetOwned x (u_id user) db = Inl NOT_FOUND)"
proof (cases "requireUser ctx")
  case (Inl e) then show ?thesis by simp
next
  case (Inr user)
  with assms have "\<not> list_ex (\<lambda>s. s_id s = x \<and> s_userId s = u_id user) (Snippets db)"
    by (simp add: owns_snippet_def caller_def)
  then show ?thesis using Inr ensureSnippetOwned_none by blast
qed

lemma owned_row:
  assumes "owns_snippet (caller ctx) x db"
  shows "\<exists>e\<in>set (Snippets db). s_id e = x \<and> caller ctx = Some (s_userId e)"
  using assms by (auto simp: owns_snippet_def list_ex_iff split: option.splits)

lemma nth_update_where:
  "n < length rows \<Longrightarrow>
   update_where p f rows ! n = (if p (rows ! n) then f (rows ! n) else rows ! n)"
  by (simp add: update_where_def)

lemma length_update_where [simp]: "length (update_where p f rows) = length rows"
  by (simp add: update_where_def)

lemma set_snippet_keys [simp]:
  "s_id (set_snippet u s) = s_id s" "s_userId (set_snippet u s) = s_userId s"
  by (simp_all add: set_snippet_def)

lemma set_snippet_isArchived:
  "s_isArchived (set_snippet u s) = (case su_isArchived u of None \<Rightarrow> s_isArchived s | Some v \<Rightarrow> v)"
  by (simp add: set_snippet_def)

lemma updateSnippet_not_owned:
  assumes "\<not> owns_snippet (caller ctx) (us_id i) db"
  shows "snd (updateSnippet i ctx env db) = db \<and> (\<exists>e. fst (updateSnippet i ctx env db) = Inl e)"
  using not_owned_cases [OF assms]
  by (auto simp: updateSnippet_def updateSnippet_handler_def)

lemma archiveSnippet_not_owned:
  assumes "\<not> owns_snippet (caller ctx) (as_id i) db"
  shows "snd (archiveSnippet i ctx env db) = db \<and> (\<exists>e. fst (archiveSnippet i ctx env db) = Inl e)"
  using not_owned_cases [OF assms]
  by (auto simp: archiveSnippet_def archiveSnippet_handler_def)

lemma updateSnippet_nth:
  "length (Snippets (snd (updateSnippet i ctx env db))) = length (Snippets db)"
  "n < length (Snippets db) \<Longrightarrow>
     s_id (Snippets (snd (updateSnippet i ctx env db)) ! n) = s_id (Snippets db ! n) \<and>
     s_userId (Snippets (snd (updateSnippet i ctx env db)) ! n) = s_userId (Snippets db ! n) \<and>
     (s_isArchived (Snippets (snd (updateSnippet i ctx env db)) ! n) = s_isArchived (Snippets db ! n) \<or>
      us_isArchived i = Some (s_isArchived (Snippets (snd (updateSnippet i ctx env db)) ! n)))"
  by (auto simp: updateSnippet_def updateSnippet_handler_def Let_def nth_update_where
        set_snippet_isArchived split: sum.splits option.splits if_splits)

lemma updateSnippet_other_id:
  "n < length (Snippets db) \<Longrightarrow> s_id (Snippets db ! n) \<noteq> us_id i \<Longrightarrow>
   Snippets (snd (updateSnippet i ctx env db)) ! n = Snippets db ! n"
  by (auto simp: updateSnippet_def updateSnippet_handler_def Let_def nth_update_where
        split: sum.splits option.splits if_splits dest: ensureSnippetOwned_Inr)

lemma updateSnippet_succeeds:
  assumes "fst (updateSnippet i ctx env db) = Inr r"
  obtains user e where "requireUser ctx = Inr user"
    and "ensureSnippetOwned (us_id i) (u_id user) db = Inr e" and "s_id e = us_id i"
proof (cases "requireUser ctx")
  case (Inl err)
  with assms show ?thesis
    by (simp add: updateSnippet_def updateSnippet_handler_def split: if_splits)
next
  case user: (Inr user)
  show ?thesis
  proof (cases "ensureSnippetOwned (us_id i) (u_id user) db")
    case (Inl err)
    with assms user show ?thesis
      by (simp add: updateSnippet_def updateSnippet_handler_def split: if_splits)
  next
    case (Inr e)
    with user ensureSnippetOwned_Inr [OF Inr] that show ?thesis by blast
  qed
qed

lemma updateSnippet_written:
  assumes n: "n < length (Snippets db)" and same: "s_id (Snippets db ! n) = us_id i"
    and run: "fst (updateSnippet i ctx env db) = Inr r" and b: "us_isArchived i = Some b"
  shows "s_isArchived (Snippets (snd (updateSnippet i ctx env db)) ! n) = b"
proof -
  from updateSnippet_succeeds [OF run] obtain user e where
    u: "requireUser ctx = Inr user" and e: "ensureSnippetOwned (us_id i) (u_id user) db = Inr e"
    and id: "s_id e = us_id i" by blast
  from run show ?thesis
    by (auto simp: updateSnippet_def updateSnippet_handler_def Let_def u e id n same b
          nth_update_where set_snippet_isArchived split: if_splits option.splits sum.splits)
qed

lemma updateSnippet_answer:
  assumes run: "fst (updateSnippet i ctx env db) = Inr r"
  shows "r = first_row (select_where (\<lambda>s. s_id s = us_id i)
                          (Snippets (snd (updateSnippet i ctx env db))))"
proof -
  from updateSnippet_succeeds [OF run] obtain user e where
    u: "requireUser ctx = Inr user" and e: "ensureSnippetOwned (us_id i) (u_id user) db = Inr e"
    and id: "s_id e = us_id i" by blast
  from run show ?thesis
    by (auto simp: updateSnippet_def updateSnippet_handler_def Let_def u e id
          split: if_splits option.splits sum.splits)
qed

lemma archiveSnippet_nth:
  "length (Snippets (snd (archiveSnippet i ctx env db))) = length (Snippets db)"
  "n < length (Snippets db) \<Longrightarrow>
     s_id (Snippets (snd (archiveSnippet i ctx env db)) ! n) = s_id (Snippets db ! n) \<and>
     s_userId (Snippets (snd (archiveSnippet i ctx env db)) ! n) = s_userId (Snippets db ! n) \<and>
     (s_isArchived (Snippets db ! n) \<longrightarrow> s_isArchived (Snippets (snd (archiveSnippet i ctx env db)) ! n))"
  by (auto simp: archiveSnippet_def archiveSnippet_handler_def Let_def nth_update_where
        split: sum.splits)

lemma archiveSnippet_other_id:
  "n < length (Snippets db) \<Longrightarrow> s_id (Snippets db ! n) \<noteq> as_id i \<Longrightarrow>
   Snippets (snd (archiveSnippet i ctx env db)) ! n = Snippets db ! n"
  by (auto simp: archiveSnippet_def archiveSnippet_handler_def Let_def nth_update_where
        split: sum.splits dest: ensureSnippetOwned_Inr)

lemma createSnippet_nth:
  "length (Snippets db) \<le> length (Snippets (snd (createSnippet i ctx env db)))"
  "n < length (Snippets db) \<Longrightarrow>
     Snippets (snd (createSnippet i ctx env db)) ! n = Snippets db ! n"
  by (auto simp: createSnippet_def createSnippet_handler_def insert_snippet_def Let_def
        nth_append split: sum.splits)

lemma other_actions_snippets:
  "Snippets (snd (createSnippetCollection ci ctx env db)) = Snippets db"
  "Snippets (snd (updateSnippetCollection ui ctx env db)) = Snippets db"
  "Snippets (snd (listMySnippetCollections lc ctx db)) = Snippets db"
  "Snippets (snd (listSnippets ls ctx db)) = Snippets db"
  "Snippets (snd (getSnippet gs ctx db)) = Snippets db"
  by (simp_all add: createSnippetCollection_def createSnippetCollection_handler_def
        updateSnippetCollection_def updateSnippetCollection_handler_def
        listMySnippetCollections_def listMySnippetCollections_handler_def
        listSnippets_def listSnippets_handler_def getSnippet_def getSnippet_handler_def
        insert_collection_def clear_defaults_def Let_def split: sum.splits option.splits)

text \<open>
  With unique snippet ids, the row a call names is the caller's own or the call writes
  nothing: a row of another user is never the one written.
\<close>

lemma other_user_row_not_named:
  assumes u: "snippet_ids_unique db" and n: "n < length (Snippets db)"
    and other: "caller ctx \<noteq> Some (s_userId (Snippets db ! n))"
    and own: "owns_snippet (caller ctx) x db"
  shows "s_id (Snippets db ! n) \<noteq> x"
proof
  assume same: "s_id (Snippets db ! n) = x"
  from owned_row [OF own] obtain e where e: "e \<in> set (Snippets db)" "s_id e = x"
    "caller ctx = Some (s_userId e)" by blast
  have "Snippets db ! n \<in> set (Snippets db)" using n by simp
  from same_key_same_row [OF _ e(1) this, of s_id] u same e(2)
  have "Snippets db ! n = e" by (simp add: snippet_ids_unique_def)
  with e(3) other show False by simp
qed

lemma updateSnippet_other_user:
  assumes "snippet_ids_unique db" and "n < length (Snippets db)"
    and "caller ctx \<noteq> Some (s_userId (Snippets db ! n))"
  shows "Snippets (snd (updateSnippet i ctx env db)) ! n = Snippets db ! n"
proof (cases "owns_snippet (caller ctx) (us_id i) db")
  case True
  from other_user_row_not_named [OF assms True]
  show ?thesis by (rule updateSnippet_other_id [OF assms(2)])
next
  case False
  then show ?thesis using updateSnippet_not_owned by simp
qed

lemma archiveSnippet_other_user:
  assumes "snippet_ids_unique db" and "n < length (Snippets db)"
    and "caller ctx \<noteq> Some (s_userId (Snippets db ! n))"
  shows "Snippets (snd (archiveSnippet i ctx env db)) ! n = Snippets db ! n"
proof (cases "owns_snippet (caller ctx) (as_id i) db")
  case True
  from other_user_row_not_named [OF assms True]
  show ?thesis by (rule archiveSnippet_other_id [OF assms(2)])
next
  case False
  then show ?thesis using archiveSnippet_not_owned by simp
qed

lemma updateSnippet_returned:
  assumes run: "fst (updateSnippet i ctx env db) = Inr r" and b: "us_isArchived i = Some b"
  shows "owns_snippet (caller ctx) (us_id i) db \<and>
         (\<exists>row. r = Some row \<and> s_id row = us_id i \<and> s_isArchived row = b)"
proof -
  let ?S = "Snippets db" and ?S' = "Snippets (snd (updateSnippet i ctx env db))"
  have own: "owns_snippet (caller ctx) (us_id i) db"
    using run updateSnippet_not_owned [of ctx i db env] by auto
  from owned_row [OF own] obtain e where e: "e \<in> set ?S" "s_id e = us_id i" by blast
  then obtain m where m: "m < length ?S" "?S ! m = e" by (auto simp: in_set_conv_nth)
  have len: "length ?S' = length ?S" by (rule updateSnippet_nth(1))
  have "?S' ! m \<in> set ?S'" using m(1) len by simp
  moreover have "s_id (?S' ! m) = us_id i"
    using updateSnippet_nth(2) [OF m(1), of i ctx env] m(2) e(2) by simp
  ultimately obtain row where
    row: "first_row (select_where (\<lambda>s. s_id s = us_id i) ?S') = Some row"
    using first_row_exists [of "?S' ! m" ?S' "\<lambda>s. s_id s = us_id i"] by blast
  from first_row_member [OF row] have rin: "row \<in> set ?S'" and rid: "s_id row = us_id i"
    by simp_all
  from rin obtain k where k: "k < length ?S'" "?S' ! k = row" by (auto simp: in_set_conv_nth)
  then have k': "k < length ?S" using len by simp
  have "s_id (?S ! k) = us_id i"
    using updateSnippet_nth(2) [OF k', of i ctx env] k(2) rid by simp
  from updateSnippet_written [OF k' this run b] k(2) have "s_isArchived row = b" by simp
  with updateSnippet_answer [OF run] row rid own show ?thesis by simp
qed

lemma server_snippet_ids:
  assumes "snippet_ids_unique db"
  shows "snippet_ids_unique (server a ctx env db)"
proof (cases a)
  case (UpdateSnippet i)
  have "map s_id (Snippets (snd (updateSnippet i ctx env db))) = map s_id (Snippets db)"
    by (rule nth_equalityI) (simp_all add: updateSnippet_nth)
  with assms show ?thesis by (simp add: snippet_ids_unique_def UpdateSnippet)
next
  case (ArchiveSnippet i)
  have "map s_id (Snippets (snd (archiveSnippet i ctx env db))) = map s_id (Snippets db)"
    by (rule nth_equalityI) (simp_all add: archiveSnippet_nth)
  with assms show ?thesis by (simp add: snippet_ids_unique_def ArchiveSnippet)
next
  case (CreateSnippet i)
  with assms show ?thesis
    by (auto simp: snippet_ids_unique_def createSnippet_def createSnippet_handler_def
          insert_snippet_def Let_def split: sum.splits)
qed (use assms in \<open>simp_all add: snippet_ids_unique_def other_actions_snippets\<close>)

lemma reachable_snippet_ids: "reachable db \<Longrightarrow> snippet_ids_unique db"
proof (induction rule: reachable.induct)
  case reachable_empty
  show ?case by (simp add: snippet_ids_unique_def)
next
  case (reachable_call db a ctx env)
  then show ?case by (intro server_snippet_ids)
qed

text \<open>
  Claim C2, as amended. One call of any action keeps every snippet row in place with its
  id and its owner. Unless the call is an \<open>updateSnippet\<close> whose input carries
  \<open>isArchived = false\<close>, a row that was archived is still archived after it; a call that
  is neither \<open>archiveSnippet\<close> nor an \<open>updateSnippet\<close> with \<open>isArchived\<close> present leaves the
  flag of every row as it was. Whatever the call, a row whose id is not the id the call
  names is left as it was, and so is, ids being unique, every row of a user other than the
  caller; a call that names a snippet its caller does not own leaves the whole store as it
  was. A successful \<open>updateSnippet\<close> with \<open>isArchived = b\<close> is by the owner of the named
  snippet, answers that row with \<open>isArchived = b\<close>, and leaves every row of that id with
  \<open>isArchived = b\<close>: with true it archives, with false it takes the snippet back to active.
  (The claim as stated, that no operation ever takes a snippet from archived back to
  active, fails: see the counterexample below.)
\<close>

theorem archived_stays_archived:
  "length (Snippets db) \<le> length (Snippets (server a ctx env db)) \<and>
   (\<forall>n<length (Snippets db).
      s_id (Snippets (server a ctx env db) ! n) = s_id (Snippets db ! n) \<and>
      s_userId (Snippets (server a ctx env db) ! n) = s_userId (Snippets db ! n) \<and>
      (\<not> unarchiving_update a \<and> s_isArchived (Snippets db ! n) \<longrightarrow>
         s_isArchived (Snippets (server a ctx env db) ! n)) \<and>
      (\<not> writes_isArchived a \<longrightarrow>
         s_isArchived (Snippets (server a ctx env db) ! n) = s_isArchived (Snippets db ! n)) \<and>
      (target_id a \<noteq> Some (s_id (Snippets db ! n)) \<longrightarrow>
         Snippets (server a ctx env db) ! n = Snippets db ! n) \<and>
      (snippet_ids_unique db \<and> caller ctx \<noteq> Some (s_userId (Snippets db ! n)) \<longrightarrow>
         Snippets (server a ctx env db) ! n = Snippets db ! n)) \<and>
   (\<forall>x. target_id a = Some x \<and> \<not> owns_snippet (caller ctx) x db \<longrightarrow>
      server a ctx env db = db) \<and>
   (\<forall>i b r. a = UpdateSnippet i \<and> us_isArchived i = Some b \<and>
            fst (updateSnippet i ctx env db) = Inr r \<longrightarrow>
      owns_snippet (caller ctx) (us_id i) db \<and>
      (\<exists>row. r = Some row \<and> s_id row = us_id i \<and> s_isArchived row = b) \<and>
      (\<forall>n<length (Snippets db).
         s_id (Snippets db ! n) = us_id i \<longrightarrow>
         s_isArchived (Snippets (server a ctx env db) ! n) = b))"
proof (cases a)
  case (UpdateSnippet i)
  let ?S = "Snippets db" and ?S' = "Snippets (snd (updateSnippet i ctx env db))"
  have srv: "server a ctx env db = snd (updateSnippet i ctx env db)"
    by (simp add: UpdateSnippet)
  have A: "length (Snippets db) \<le> length (Snippets (server a ctx env db))"
    unfolding srv using updateSnippet_nth(1) [of i ctx env db] by simp
  have B: "\<forall>n<length (Snippets db).
      s_id (Snippets (server a ctx env db) ! n) = s_id (Snippets db ! n) \<and>
      s_userId (Snippets (server a ctx env db) ! n) = s_userId (Snippets db ! n) \<and>
      (\<not> unarchiving_update a \<and> s_isArchived (Snippets db ! n) \<longrightarrow>
         s_isArchived (Snippets (server a ctx env db) ! n)) \<and>
      (\<not> writes_isArchived a \<longrightarrow>
         s_isArchived (Snippets (server a ctx env db) ! n) = s_isArchived (Snippets db ! n)) \<and>
      (target_id a \<noteq> Some (s_id (Snippets db ! n)) \<longrightarrow>
         Snippets (server a ctx env db) ! n = Snippets db ! n) \<and>
      (snippet_ids_unique db \<and> caller ctx \<noteq> Some (s_userId (Snippets db ! n)) \<longrightarrow>
         Snippets (server a ctx env db) ! n = Snippets db ! n)"
  proof (intro allI impI)
    fix n assume n: "n < length (Snippets db)"
    note base = updateSnippet_nth(2) [OF n, of i ctx env]
    have id: "s_id (?S' ! n) = s_id (?S ! n)" and own: "s_userId (?S' ! n) = s_userId (?S ! n)"
      using base by simp_all
    have flag: "s_isArchived (?S' ! n) = s_isArchived (?S ! n) \<or>
                us_isArchived i = Some (s_isArchived (?S' ! n))"
      using base by simp
    have keep: "\<not> unarchiving_update a \<and> s_isArchived (?S ! n) \<longrightarrow> s_isArchived (?S' ! n)"
      using flag by (auto simp: UpdateSnippet)
    have same: "\<not> writes_isArchived a \<longrightarrow> s_isArchived (?S' ! n) = s_isArchived (?S ! n)"
      using flag by (auto simp: UpdateSnippet)
    have other: "target_id a \<noteq> Some (s_id (?S ! n)) \<longrightarrow> ?S' ! n = ?S ! n"
      using updateSnippet_other_id [OF n, of i ctx env] by (auto simp: UpdateSnippet)
    have user: "snippet_ids_unique db \<and> caller ctx \<noteq> Some (s_userId (?S ! n)) \<longrightarrow>
                ?S' ! n = ?S ! n"
      using updateSnippet_other_user [OF _ n, of ctx i env] by blast
    show "s_id (Snippets (server a ctx env db) ! n) = s_id (Snippets db ! n) \<and>
      s_userId (Snippets (server a ctx env db) ! n) = s_userId (Snippets db ! n) \<and>
      (\<not> unarchiving_update a \<and> s_isArchived (Snippets db ! n) \<longrightarrow>
         s_isArchived (Snippets (server a ctx env db) ! n)) \<and>
      (\<not> writes_isArchived a \<longrightarrow>
         s_isArchived (Snippets (server a ctx env db) ! n) = s_isArchived (Snippets db ! n)) \<and>
      (target_id a \<noteq> Some (s_id (Snippets db ! n)) \<longrightarrow>
         Snippets (server a ctx env db) ! n = Snippets db ! n) \<and>
      (snippet_ids_unique db \<and> caller ctx \<noteq> Some (s_userId (Snippets db ! n)) \<longrightarrow>
         Snippets (server a ctx env db) ! n = Snippets db ! n)"
      unfolding srv by (intro conjI id own keep same other user)
  qed
  have C: "\<forall>x. target_id a = Some x \<and> \<not> owns_snippet (caller ctx) x db \<longrightarrow>
      server a ctx env db = db"
    unfolding srv using updateSnippet_not_owned [of ctx i db env] by (auto simp: UpdateSnippet)
  have D: "\<forall>i b r. a = UpdateSnippet i \<and> us_isArchived i = Some b \<and>
            fst (updateSnippet i ctx env db) = Inr r \<longrightarrow>
      owns_snippet (caller ctx) (us_id i) db \<and>
      (\<exists>row. r = Some row \<and> s_id row = us_id i \<and> s_isArchived row = b) \<and>
      (\<forall>n<length (Snippets db).
         s_id (Snippets db ! n) = us_id i \<longrightarrow>
         s_isArchived (Snippets (server a ctx env db) ! n) = b)"
  proof (intro allI impI, elim conjE)
    fix j b r
    assume j: "a = UpdateSnippet j" and b: "us_isArchived j = Some b"
      and run: "fst (updateSnippet j ctx env db) = Inr r"
    from j have ji: "j = i" by (simp add: UpdateSnippet)
    show "owns_snippet (caller ctx) (us_id j) db \<and>
      (\<exists>row. r = Some row \<and> s_id row = us_id j \<and> s_isArchived row = b) \<and>
      (\<forall>n<length (Snippets db).
         s_id (Snippets db ! n) = us_id j \<longrightarrow>
         s_isArchived (Snippets (server a ctx env db) ! n) = b)"
      unfolding srv ji
      using updateSnippet_returned [OF run [unfolded ji] b [unfolded ji]]
        updateSnippet_written [OF _ _ run [unfolded ji] b [unfolded ji]]
      by blast
  qed
  show ?thesis by (intro conjI A B C D)
next
  case (ArchiveSnippet i)
  let ?S = "Snippets db" and ?S' = "Snippets (snd (archiveSnippet i ctx env db))"
  have srv: "server a ctx env db = snd (archiveSnippet i ctx env db)"
    by (simp add: ArchiveSnippet)
  have A: "length (Snippets db) \<le> length (Snippets (server a ctx env db))"
    unfolding srv using archiveSnippet_nth(1) [of i ctx env db] by simp
  have B: "\<forall>n<length (Snippets db).
      s_id (Snippets (server a ctx env db) ! n) = s_id (Snippets db ! n) \<and>
      s_userId (Snippets (server a ctx env db) ! n) = s_userId (Snippets db ! n) \<and>
      (\<not> unarchiving_update a \<and> s_isArchived (Snippets db ! n) \<longrightarrow>
         s_isArchived (Snippets (server a ctx env db) ! n)) \<and>
      (\<not> writes_isArchived a \<longrightarrow>
         s_isArchived (Snippets (server a ctx env db) ! n) = s_isArchived (Snippets db ! n)) \<and>
      (target_id a \<noteq> Some (s_id (Snippets db ! n)) \<longrightarrow>
         Snippets (server a ctx env db) ! n = Snippets db ! n) \<and>
      (snippet_ids_unique db \<and> caller ctx \<noteq> Some (s_userId (Snippets db ! n)) \<longrightarrow>
         Snippets (server a ctx env db) ! n = Snippets db ! n)"
  proof (intro allI impI)
    fix n assume n: "n < length (Snippets db)"
    note base = archiveSnippet_nth(2) [OF n, of i ctx env]
    have id: "s_id (?S' ! n) = s_id (?S ! n)" and own: "s_userId (?S' ! n) = s_userId (?S ! n)"
      using base by simp_all
    have keep: "\<not> unarchiving_update a \<and> s_isArchived (?S ! n) \<longrightarrow> s_isArchived (?S' ! n)"
      using base by simp
    have same: "\<not> writes_isArchived a \<longrightarrow> s_isArchived (?S' ! n) = s_isArchived (?S ! n)"
      by (simp add: ArchiveSnippet)
    have other: "target_id a \<noteq> Some (s_id (?S ! n)) \<longrightarrow> ?S' ! n = ?S ! n"
      using archiveSnippet_other_id [OF n, of i ctx env] by (auto simp: ArchiveSnippet)
    have user: "snippet_ids_unique db \<and> caller ctx \<noteq> Some (s_userId (?S ! n)) \<longrightarrow>
                ?S' ! n = ?S ! n"
      using archiveSnippet_other_user [OF _ n, of ctx i env] by blast
    show "s_id (Snippets (server a ctx env db) ! n) = s_id (Snippets db ! n) \<and>
      s_userId (Snippets (server a ctx env db) ! n) = s_userId (Snippets db ! n) \<and>
      (\<not> unarchiving_update a \<and> s_isArchived (Snippets db ! n) \<longrightarrow>
         s_isArchived (Snippets (server a ctx env db) ! n)) \<and>
      (\<not> writes_isArchived a \<longrightarrow>
         s_isArchived (Snippets (server a ctx env db) ! n) = s_isArchived (Snippets db ! n)) \<and>
      (target_id a \<noteq> Some (s_id (Snippets db ! n)) \<longrightarrow>
         Snippets (server a ctx env db) ! n = Snippets db ! n) \<and>
      (snippet_ids_unique db \<and> caller ctx \<noteq> Some (s_userId (Snippets db ! n)) \<longrightarrow>
         Snippets (server a ctx env db) ! n = Snippets db ! n)"
      unfolding srv by (intro conjI id own keep same other user)
  qed
  have C: "\<forall>x. target_id a = Some x \<and> \<not> owns_snippet (caller ctx) x db \<longrightarrow>
      server a ctx env db = db"
    unfolding srv using archiveSnippet_not_owned [of ctx i db env] by (auto simp: ArchiveSnippet)
  have D: "\<forall>i b r. a = UpdateSnippet i \<and> us_isArchived i = Some b \<and>
            fst (updateSnippet i ctx env db) = Inr r \<longrightarrow>
      owns_snippet (caller ctx) (us_id i) db \<and>
      (\<exists>row. r = Some row \<and> s_id row = us_id i \<and> s_isArchived row = b) \<and>
      (\<forall>n<length (Snippets db).
         s_id (Snippets db ! n) = us_id i \<longrightarrow>
         s_isArchived (Snippets (server a ctx env db) ! n) = b)"
    by (simp add: ArchiveSnippet)
  show ?thesis by (intro conjI A B C D)
next
  case (CreateSnippet i)
  show ?thesis
    using createSnippet_nth [where i = i and ctx = ctx and env = env and db = db]
    by (simp add: CreateSnippet)
qed (simp_all add: other_actions_snippets)

lemma store1_facts:
  "snippet_ids_unique store1" "caller alice = Some ''alice''"
  "length (Snippets store1) = 3"
  "s_id (Snippets store1 ! 0) = ''s1''" "s_id (Snippets store1 ! 1) = ''s2''"
  "s_userId (Snippets store1 ! 2) = ''bob''"
  "s_isArchived (Snippets store1 ! 1)" "s_isArchived (Snippets store1 ! 2)"
  "\<not> s_isArchived (Snippets store1 ! 0)"
  "\<not> owns_snippet (Some ''alice'') ''s9'' store1"
  by (simp_all add: snippet_ids_unique_def caller_def requireUser_def owns_snippet_def ex_defs)

lemma store1_updates:
  "fst (updateSnippet unarchive_old alice at100 store1) =
     Inr (Some (old\<lparr>s_isArchived := False, s_updatedAt := 100\<rparr>))"
  "fst (updateSnippet archive_by_update alice at100 store1) =
     Inr (Some (sel\<lparr>s_isArchived := True, s_updatedAt := 100\<rparr>))"
  by (simp_all add: updateSnippet_def updateSnippet_schema_def updateSnippet_handler_def
        run_defs ex_defs)

theorem archived_stays_archived_witness:
  "snippet_ids_unique store1 \<and> caller alice = Some ''alice'' \<and>
   s_userId (Snippets store1 ! 2) = ''bob'' \<and>
   s_isArchived (Snippets store1 ! 1) \<and> s_isArchived (Snippets store1 ! 2) \<and>
   \<not> unarchiving_update (UpdateSnippet rename_old) \<and>
   \<not> writes_isArchived (UpdateSnippet rename_old) \<and>
   s_isArchived (Snippets (server (UpdateSnippet rename_old) alice at100 store1) ! 1) \<and>
   unarchiving_update (UpdateSnippet unarchive_old) \<and>
   target_id (UpdateSnippet unarchive_old) = Some ''s2'' \<and>
   Snippets (server (UpdateSnippet unarchive_old) alice at100 store1) ! 0 = Snippets store1 ! 0 \<and>
   Snippets (server (UpdateSnippet unarchive_old) alice at100 store1) ! 2 = Snippets store1 ! 2 \<and>
   s_isArchived (Snippets (server (UpdateSnippet unarchive_old) alice at100 store1) ! 1) = False \<and>
   target_id (UpdateSnippet unarchive_theirs) = Some ''s9'' \<and>
   \<not> owns_snippet (caller alice) ''s9'' store1 \<and>
   server (UpdateSnippet unarchive_theirs) alice at100 store1 = store1 \<and>
   s_isArchived (Snippets store1 ! 0) = False \<and>
   s_isArchived (Snippets (server (UpdateSnippet archive_by_update) alice at100 store1) ! 0) = True"
proof -
  note f = store1_facts
  have n: "(0::nat) < length (Snippets store1)" "(1::nat) < length (Snippets store1)"
    "(2::nat) < length (Snippets store1)" by (simp_all add: f)
  have k: "\<not> unarchiving_update (UpdateSnippet rename_old)"
    "\<not> writes_isArchived (UpdateSnippet rename_old)"
    "unarchiving_update (UpdateSnippet unarchive_old)"
    "target_id (UpdateSnippet unarchive_old) = Some ''s2''"
    "target_id (UpdateSnippet unarchive_theirs) = Some ''s9''"
    "us_isArchived unarchive_old = Some False" "us_id unarchive_old = ''s2''"
    "us_isArchived archive_by_update = Some True" "us_id archive_by_update = ''s1''"
    by (simp_all add: ex_defs)
  note rename = archived_stays_archived [of store1 "UpdateSnippet rename_old" alice at100]
  note undo = archived_stays_archived [of store1 "UpdateSnippet unarchive_old" alice at100]
  note foreign = archived_stays_archived [of store1 "UpdateSnippet unarchive_theirs" alice at100]
  note redo = archived_stays_archived [of store1 "UpdateSnippet archive_by_update" alice at100]
  have r1: "s_isArchived (Snippets (server (UpdateSnippet rename_old) alice at100 store1) ! 1)"
    using rename [THEN conjunct2, THEN conjunct1, rule_format, OF n(2)] k(1) f(7) by blast
  have u0: "Snippets (server (UpdateSnippet unarchive_old) alice at100 store1) ! 0 =
            Snippets store1 ! 0"
    using undo [THEN conjunct2, THEN conjunct1, rule_format, OF n(1)] k(4) f(4) by simp
  have u2: "Snippets (server (UpdateSnippet unarchive_old) alice at100 store1) ! 2 =
            Snippets store1 ! 2"
    using undo [THEN conjunct2, THEN conjunct1, rule_format, OF n(3)] f(1) f(2) f(6) by simp
  have u1: "s_isArchived (Snippets (server (UpdateSnippet unarchive_old) alice at100 store1) ! 1)
            = False"
    using undo [THEN conjunct2, THEN conjunct2, THEN conjunct2, rule_format,
        of unarchive_old False, OF conjI [OF refl conjI [OF k(6) store1_updates(1)]],
        THEN conjunct2, THEN conjunct2, rule_format, OF n(2)] f(5) k(7) by simp
  have x: "server (UpdateSnippet unarchive_theirs) alice at100 store1 = store1"
    using foreign [THEN conjunct2, THEN conjunct2, THEN conjunct1, rule_format, of "''s9''"]
      k(5) f(2) f(10) by simp
  have a0: "s_isArchived (Snippets (server (UpdateSnippet archive_by_update) alice at100 store1) ! 0)
            = True"
    using redo [THEN conjunct2, THEN conjunct2, THEN conjunct2, rule_format,
        of archive_by_update True, OF conjI [OF refl conjI [OF k(8) store1_updates(2)]],
        THEN conjunct2, THEN conjunct2, rule_format, OF n(1)] f(4) k(9) by simp
  show ?thesis using f k r1 u0 u2 u1 x a0 by simp
qed

text \<open>
  Claim C2 as stated fails: \<open>updateSnippet\<close> with \<open>isArchived = false\<close> on an archived
  snippet of the caller succeeds and the row is active again.
\<close>

theorem archived_is_one_way_counterexample:
  "old \<in> set (Snippets store0) \<and> s_isArchived old \<and> updateSnippet_schema unarchive_old \<and>
   updateSnippet unarchive_old alice at100 store0 =
     (Inr (Some (old\<lparr>s_isArchived := False, s_updatedAt := 100\<rparr>)),
      store0\<lparr>Snippets := [sel, old\<lparr>s_isArchived := False, s_updatedAt := 100\<rparr>]\<rparr>)"
  by (simp add: updateSnippet_def updateSnippet_schema_def updateSnippet_handler_def
        run_defs ex_defs)

section \<open>Description and icon of a collection\<close>

lemma updateSnippetCollection_nth:
  "length (SnippetCollections (snd (updateSnippetCollection ui ctx env db))) =
     length (SnippetCollections db)"
  "n < length (SnippetCollections db) \<Longrightarrow>
     c_description (SnippetCollections (snd (updateSnippetCollection ui ctx env db)) ! n) =
       c_description (SnippetCollections db ! n) \<or>
     (\<exists>v. usc_description ui = Some v \<and>
        c_description (SnippetCollections (snd (updateSnippetCollection ui ctx env db)) ! n) = Some v)"
  "n < length (SnippetCollections db) \<Longrightarrow>
     c_icon (SnippetCollections (snd (updateSnippetCollection ui ctx env db)) ! n) =
       c_icon (SnippetCollections db ! n) \<or>
     (\<exists>v. usc_icon ui = Some v \<and>
        c_icon (SnippetCollections (snd (updateSnippetCollection ui ctx env db)) ! n) = Some v)"
  by (auto simp: updateSnippetCollection_def updateSnippetCollection_handler_def Let_def
        clear_defaults_def nth_update_where set_collection_def
        split: sum.splits option.splits if_splits)

text \<open>
  Claim C5, as amended. After \<open>updateSnippetCollection\<close> (whatever it answers) every
  collection row is in place, its \<open>description\<close> either as it was or the string the caller
  supplied, and likewise its \<open>icon\<close>; a row that had a description (an icon) still has
  one, so neither column is ever reset to the absent value. (The supplied string may be
  the empty string, so the claim as stated, that no accepted input clears a non-empty
  description to empty, fails: see the counterexample below.)
\<close>

theorem description_icon_set_or_kept:
  "length (SnippetCollections (snd (updateSnippetCollection ui ctx env db))) =
     length (SnippetCollections db) \<and>
   (\<forall>n<length (SnippetCollections db).
      (c_description (SnippetCollections (snd (updateSnippetCollection ui ctx env db)) ! n) =
         c_description (SnippetCollections db ! n) \<or>
       (\<exists>v. usc_description ui = Some v \<and>
          c_description (SnippetCollections (snd (updateSnippetCollection ui ctx env db)) ! n) =
            Some v)) \<and>
      (c_icon (SnippetCollections (snd (updateSnippetCollection ui ctx env db)) ! n) =
         c_icon (SnippetCollections db ! n) \<or>
       (\<exists>v. usc_icon ui = Some v \<and>
          c_icon (SnippetCollections (snd (updateSnippetCollection ui ctx env db)) ! n) =
            Some v)) \<and>
      (c_description (SnippetCollections db ! n) \<noteq> None \<longrightarrow>
         c_description (SnippetCollections (snd (updateSnippetCollection ui ctx env db)) ! n)
           \<noteq> None) \<and>
      (c_icon (SnippetCollections db ! n) \<noteq> None \<longrightarrow>
         c_icon (SnippetCollections (snd (updateSnippetCollection ui ctx env db)) ! n)
           \<noteq> None))"
  using updateSnippetCollection_nth [where ui = ui and ctx = ctx and env = env and db = db]
  by (metis option.distinct(1))

lemma blank_description_ex:
  "updateSnippetCollection blank_description alice at100 store0 =
     (Inr (Some (sql\<lparr>c_description := Some [], c_updatedAt := 100\<rparr>)),
      store0\<lparr>SnippetCollections := [sql\<lparr>c_description := Some [], c_updatedAt := 100\<rparr>, go, rust]\<rparr>)"
  by (simp add: updateSnippetCollection_def updateSnippetCollection_schema_def
        updateSnippetCollection_handler_def run_defs ex_defs)

theorem description_icon_set_or_kept_witness:
  "(0::nat) < length (SnippetCollections store0) \<and>
   c_description (SnippetCollections store0 ! 0) = Some ''queries'' \<and>
   c_icon (SnippetCollections store0 ! 0) = Some ''laptop'' \<and>
   usc_description blank_description = Some [] \<and> usc_icon blank_description = None \<and>
   c_description
     (SnippetCollections (snd (updateSnippetCollection blank_description alice at100 store0)) ! 0)
     \<noteq> None \<and>
   c_icon
     (SnippetCollections (snd (updateSnippetCollection blank_description alice at100 store0)) ! 0)
     = Some ''laptop''"
proof -
  have h: "(0::nat) < length (SnippetCollections store0)"
    "c_description (SnippetCollections store0 ! 0) = Some ''queries''"
    "c_icon (SnippetCollections store0 ! 0) = Some ''laptop''"
    "usc_description blank_description = Some []" "usc_icon blank_description = None"
    by (simp_all add: ex_defs)
  from description_icon_set_or_kept [of blank_description alice at100 store0] h
  show ?thesis by auto
qed

text \<open>
  Claim C5 as stated fails: the schema accepts \<open>description\<close> the empty string, which is
  not undefined, so the handler writes it over a description that had text.
\<close>

theorem description_never_cleared_counterexample:
  "updateSnippetCollection_schema blank_description \<and>
   sql \<in> set (SnippetCollections store0) \<and> c_userId sql = ''alice'' \<and>
   \<not> empty_text (c_description sql) \<and>
   updateSnippetCollection blank_description alice at100 store0 =
     (Inr (Some (sql\<lparr>c_description := Some [], c_updatedAt := 100\<rparr>)),
      store0\<lparr>SnippetCollections := [sql\<lparr>c_description := Some [], c_updatedAt := 100\<rparr>, go, rust]\<rparr>) \<and>
   empty_text (c_description (sql\<lparr>c_description := Some [], c_updatedAt := 100\<rparr>))"
  by (simp add: blank_description_ex)
     (simp add: updateSnippetCollection_schema_def empty_text_def ex_defs)

end
